theory Spec2Isabelle
  imports Complex_Main "HOL-Library.Word"
begin

section \<open>Spike-rate analysis: spikes.py\<close>

text \<open>
  A shallow embedding of the rate-estimation and trial-segmentation functions of
  \<^verbatim>\<open>spikes.py\<close>. Timestamps and all other floating-point quantities are modelled as
  exact reals (\<^typ>\<open>real\<close>); counts stored in a \<^verbatim>\<open>uint16\<close> array are
  \<^typ>\<open>16 word\<close>. Every \<^verbatim>\<open>assert\<close> and every exception of the source is a value
  \<open>Inl e\<close> of a sum type. The NumPy routines the source calls (\<^verbatim>\<open>np.histogram\<close>,
  \<^verbatim>\<open>np.arange\<close>, \<^verbatim>\<open>np.allclose\<close>, \<^verbatim>\<open>np.round\<close>, \<^verbatim>\<open>np.concatenate\<close>,
  \<^verbatim>\<open>ndarray.sort\<close>) are written out with their documented behaviour.
\<close>

subsection \<open>Errors\<close>

text \<open>One constructor per \<^verbatim>\<open>assert\<close> of the source, named after what it checks.\<close>

datatype assert_site =
    NeedTimeVector          \<comment> \<open>\<^verbatim>\<open>assert t is not None\<close> (binary data without time vector)\<close>
  | NeedLims                \<comment> \<open>\<^verbatim>\<open>assert lims is not None\<close>\<close>
  | BinsNotNby2             \<comment> \<open>\<^verbatim>\<open>assert (bins.ndim == 2) and (bins.shape[1] == 2)\<close>\<close>
  | NeedSmpRate             \<comment> \<open>\<^verbatim>\<open>assert smp_rate is not None\<close>\<close>
  | TrialLimsNotNby2        \<comment> \<open>\<^verbatim>\<open>assert (trial_lims.ndim == 2) and (trial_lims.shape[1] == 2)\<close>\<close>
  | IndexBeforeStart        \<comment> \<open>\<^verbatim>\<open>assert trial_idxs.min() >= 0\<close>\<close>
  | IndexBeyondEnd          \<comment> \<open>\<^verbatim>\<open>assert trial_idxs.max() < data.shape[axis]\<close>\<close>
  | VariableLengthWindows   \<comment> \<open>\<^verbatim>\<open>assert max_diff <= tol\<close>\<close>

datatype error =
    AssertionError assert_site
  | ValueError
  | TypeError
  | IndexError
  | AttributeError
  | AxisError
  | ZeroDivisionError
  | OverflowError

text \<open>The error taxonomy of the specification (section 7).\<close>

fun is_configuration_error :: "error \<Rightarrow> bool" where
  "is_configuration_error (AssertionError NeedTimeVector) = True"
| "is_configuration_error (AssertionError NeedLims) = True"
| "is_configuration_error (AssertionError NeedSmpRate) = True"
| "is_configuration_error _ = False"

fun is_shape_error :: "error \<Rightarrow> bool" where
  "is_shape_error (AssertionError BinsNotNby2) = True"
| "is_shape_error (AssertionError TrialLimsNotNby2) = True"
| "is_shape_error (AssertionError IndexBeforeStart) = True"
| "is_shape_error (AssertionError IndexBeyondEnd) = True"
| "is_shape_error _ = False"

fun is_range_error :: "error \<Rightarrow> bool" where
  "is_range_error (AssertionError IndexBeforeStart) = True"
| "is_range_error (AssertionError IndexBeyondEnd) = True"
| "is_range_error _ = False"

subsection \<open>Spiking data and its classification\<close>

text \<open>
  The inputs the functions receive, as \<^verbatim>\<open>np.asarray(data)\<close> sees them:
  a one-dimensional numeric array (one spike train given by its timestamps, or a rate
  vector), a Python list of numbers, an object array whose cells are timestamp arrays
  (listed in C order, the order of \<^verbatim>\<open>data.flat\<close>), or a one-dimensional boolean array
  (a binary spike train). Numeric arrays and lists hold floats (times in seconds).
\<close>

datatype spike_data =
    NumArray "real list"
  | PyList "real list"
  | ObjArray "real list list"
  | BoolArray "bool list"

datatype data_type = Bool | Timestamp | Rate

text \<open>
  \<^verbatim>\<open>_isbinary\<close>: boolean dtype, or numeric dtype with every value in \<open>{0, 1}\<close>.
  An object array is neither.
\<close>

fun isbinary :: "spike_data \<Rightarrow> bool" where
  "isbinary (BoolArray bs) = True"
| "isbinary (NumArray xs) = list_all (\<lambda>x. x \<in> set [0, 1, 0, 1, 1, 0]) xs"
| "isbinary (PyList xs) = list_all (\<lambda>x. x \<in> set [0, 1, 0, 1, 1, 0]) xs"
| "isbinary (ObjArray cells) = False"

text \<open>
  \<^verbatim>\<open>ndarray.sort()\<close> sorts the array in place and returns \<^verbatim>\<open>None\<close>; a comparison
  \<^verbatim>\<open>None == array\<close> is elementwise and \<^verbatim>\<open>False\<close> at every element.
\<close>

datatype pyobj = PyNone | PyArr "real list"

definition ndarray_sort :: "real list \<Rightarrow> pyobj \<times> real list" where
  "ndarray_sort xs = (PyNone, sort xs)"

fun np_equal :: "pyobj \<Rightarrow> real list \<Rightarrow> bool list" where
  "np_equal PyNone ys = map (\<lambda>y. False) ys"
| "np_equal (PyArr xs) ys = map2 (\<lambda>x y. x = y) xs ys"

definition np_all :: "bool list \<Rightarrow> bool" where
  "np_all bs = list_all (\<lambda>b. b) bs"

text \<open>
  The test \<^verbatim>\<open>(data.ndim == 1) and ((data.sort() == data).all())\<close> on the values of
  a one-dimensional numeric array: the left operand of \<^verbatim>\<open>==\<close> is what \<^verbatim>\<open>sort\<close>
  returns, the right operand is the array after the in-place sort.
\<close>

definition sorted_1d_test :: "real list \<Rightarrow> bool" where
  "sorted_1d_test xs = (case ndarray_sort xs of (r, xs') \<Rightarrow> np_all (np_equal r xs'))"

text \<open>
  \<^verbatim>\<open>_spike_data_type\<close>. The final \<^verbatim>\<open>raise ValueError\<close> is reached only by arrays
  of a dtype that is neither boolean, numeric nor object, which \<^typ>\<open>spike_data\<close>
  does not contain.
\<close>

fun spike_data_type :: "spike_data \<Rightarrow> data_type" where
  "spike_data_type (ObjArray cells) = Timestamp"
| "spike_data_type (BoolArray bs) = Bool"
| "spike_data_type (NumArray xs) =
     (if isbinary (NumArray xs) then Bool
      else if sorted_1d_test xs then Timestamp
      else Rate)"
| "spike_data_type (PyList xs) =
     (if isbinary (PyList xs) then Bool
      else if sorted_1d_test xs then Timestamp
      else Rate)"

subsection \<open>Counting spikes in bins\<close>

text \<open>
  \<^verbatim>\<open>np.histogram(data, edges)[0]\<close> for an array of bin edges: the edges must not
  decrease (\<^verbatim>\<open>ValueError\<close> otherwise); every bin is half-open \<open>[e\<^sub>i, e\<^sub>i\<^sub>+\<^sub>1)\<close> except
  the last one, which is closed, \<open>[e\<^sub>n\<^sub>-\<^sub>1, e\<^sub>n]\<close>.
\<close>

fun hist_counts :: "real list \<Rightarrow> real list \<Rightarrow> nat list" where
  "hist_counts a [e0, e1] = [length (filter (\<lambda>x. e0 \<le> x \<and> x \<le> e1) a)]"
| "hist_counts a (e0 # e1 # es) =
     length (filter (\<lambda>x. e0 \<le> x \<and> x < e1) a) # hist_counts a (e1 # es)"
| "hist_counts a es = []"

definition np_histogram :: "real list \<Rightarrow> real list \<Rightarrow> error + nat list" where
  "np_histogram a edges = (if sorted edges then Inr (hist_counts a edges) else Inl ValueError)"

text \<open>\<^verbatim>\<open>_histogram_count\<close>: the fast path for equal-width, disjoint bins.\<close>

definition histogram_count :: "real list \<Rightarrow> real list \<Rightarrow> error + nat list" where
  "histogram_count data edges = np_histogram data edges"

text \<open>
  \<^verbatim>\<open>_custom_bin_count\<close>: the explicit inclusion test \<^verbatim>\<open>(start <= data) & (data < end)\<close>,
  summed, for each bin; the list of sums is converted to a \<^verbatim>\<open>uint16\<close> array.
\<close>

definition in_bin :: "real \<times> real \<Rightarrow> real \<Rightarrow> bool" where
  "in_bin b x = (fst b \<le> x \<and> x < snd b)"

definition custom_bin_count :: "real list \<Rightarrow> (real \<times> real) list \<Rightarrow> 16 word list" where
  "custom_bin_count data bins = map (\<lambda>b. of_nat (length (filter (in_bin b) data))) bins"

subsection \<open>Numbers and NumPy helpers\<close>

text \<open>
  Python numbers are integers or floats; the source distinguishes them in
  \<^verbatim>\<open>isinstance(step,int)\<close>. Arithmetic on two integers gives an integer, any other
  combination a float.
\<close>

datatype pynum = PyInt int | PyFloat real

fun num_val :: "pynum \<Rightarrow> real" where
  "num_val (PyInt i) = of_int i"
| "num_val (PyFloat x) = x"

fun isinstance_int :: "pynum \<Rightarrow> bool" where
  "isinstance_int (PyInt i) = True"
| "isinstance_int (PyFloat x) = False"

fun py_add :: "pynum \<Rightarrow> pynum \<Rightarrow> pynum" where
  "py_add (PyInt a) (PyInt b) = PyInt (a + b)"
| "py_add a b = PyFloat (num_val a + num_val b)"

fun py_sub :: "pynum \<Rightarrow> pynum \<Rightarrow> pynum" where
  "py_sub (PyInt a) (PyInt b) = PyInt (a - b)"
| "py_sub a b = PyFloat (num_val a - num_val b)"

fun py_neg :: "pynum \<Rightarrow> pynum" where
  "py_neg (PyInt a) = PyInt (- a)"
| "py_neg (PyFloat x) = PyFloat (- x)"

text \<open>\<^verbatim>\<open>np.round\<close> rounds a half to the nearest even integer.\<close>

definition np_round :: "real \<Rightarrow> int" where
  "np_round x =
     (let f = \<lfloor>x\<rfloor>; d = x - of_int f
      in if d < 1 / 2 then f else if 1 / 2 < d then f + 1 else if even f then f else f + 1)"

text \<open>
  \<^verbatim>\<open>np.arange(start, stop, step)\<close>: \<open>\<lceil>(stop - start) / step\<rceil>\<close> values
  \<open>start + i * step\<close> (none when that number is not positive); a zero step is an error.
\<close>

definition np_arange :: "real \<Rightarrow> real \<Rightarrow> real \<Rightarrow> error + real list" where
  "np_arange start stop step =
     (if step = 0 then Inl ZeroDivisionError
      else Inr (map (\<lambda>i. start + real i * step) [0 ..< nat \<lceil>(stop - start) / step\<rceil>]))"

text \<open>\<^verbatim>\<open>_iarange\<close>: \<^verbatim>\<open>arange\<close> with an inclusive end point.\<close>

definition iarange :: "pynum \<Rightarrow> pynum \<Rightarrow> pynum \<Rightarrow> error + real list" where
  "iarange start stop step =
     (if isinstance_int step then np_arange (num_val start) (num_val stop + 1) (num_val step)
      else np_arange (num_val start) (num_val stop + 1 / 10 ^ 12) (num_val step))"

text \<open>The array \<^verbatim>\<open>_iarange\<close> returns has an integer dtype when all three arguments are integers.\<close>

definition iarange_int_dtype :: "pynum \<Rightarrow> pynum \<Rightarrow> pynum \<Rightarrow> bool" where
  "iarange_int_dtype start stop step =
     (isinstance_int start \<and> isinstance_int stop \<and> isinstance_int step)"

text \<open>
  \<^verbatim>\<open>np.allclose(a, b)\<close> with the default tolerances:
  \<open>|a\<^sub>i - b\<^sub>i| \<le> 1e-8 + 1e-5 * |b\<^sub>i|\<close> at every position.
\<close>

definition isclose_np :: "real \<Rightarrow> real \<Rightarrow> bool" where
  "isclose_np a b = (\<bar>a - b\<bar> \<le> 1 / 10 ^ 8 + (1 / 10 ^ 5) * \<bar>b\<bar>)"

definition np_allclose :: "real list \<Rightarrow> real list \<Rightarrow> bool" where
  "np_allclose as bs = list_all (\<lambda>(a, b). isclose_np a b) (zip as bs)"

text \<open>
  \<^verbatim>\<open>np.concatenate(seq, axis)\<close> takes a sequence of arrays as its first argument and the
  axis as its second. An array given as axis converts to an index only when it holds
  exactly one element of integer dtype (\<^verbatim>\<open>TypeError\<close> otherwise); the sequence must not
  be empty and none of its members may be zero-dimensional (\<^verbatim>\<open>ValueError\<close>). Iterating a
  one-dimensional array as a sequence yields its elements, which are zero-dimensional.
\<close>

datatype arr = Arr0 real | Arr1 "real list"

datatype axis_arg = AxisInt int | AxisArray bool "real list"

fun is_Arr0 :: "arr \<Rightarrow> bool" where
  "is_Arr0 (Arr0 x) = True"
| "is_Arr0 (Arr1 xs) = False"

fun arr_items :: "arr \<Rightarrow> real list" where
  "arr_items (Arr0 x) = [x]"
| "arr_items (Arr1 xs) = xs"

definition as_sequence :: "real list \<Rightarrow> arr list" where
  "as_sequence xs = map Arr0 xs"

fun axis_index :: "axis_arg \<Rightarrow> error + int" where
  "axis_index (AxisInt i) = Inr i"
| "axis_index (AxisArray int_dtype vs) =
     (if int_dtype \<and> length vs = 1 then Inr \<lfloor>hd vs\<rfloor> else Inl TypeError)"

definition np_concatenate :: "arr list \<Rightarrow> axis_arg \<Rightarrow> error + real list" where
  "np_concatenate seq axis =
     (case axis_index axis of
        Inl e \<Rightarrow> Inl e
      | Inr ax \<Rightarrow>
          if seq = [] then Inl ValueError
          else if list_ex is_Arr0 seq then Inl ValueError
          else if ax \<noteq> 0 \<and> ax \<noteq> - 1 then Inl AxisError
          else Inr (concat (map arr_items seq)))"

subsection \<open>Sliding windows\<close>

text \<open>
  \<^verbatim>\<open>setup_sliding_windows(width, lims, step, reference, force_int, exclude_end)\<close>.
  With a \<^verbatim>\<open>reference\<close> the source calls
  \<^verbatim>\<open>np.concatenate(np.flip(_iarange(reference, lims[0], -step)), _iarange(...))\<close>:
  the flipped backward series is passed as the sequence of arrays and the forward
  series as the axis.
\<close>

definition window_starts_ref ::
    "pynum \<Rightarrow> pynum \<Rightarrow> pynum \<Rightarrow> pynum \<Rightarrow> error + real list" where
  "window_starts_ref reference lo step fwd_stop =
     (case iarange reference lo (py_neg step) of
        Inl e \<Rightarrow> Inl e
      | Inr back \<Rightarrow>
         (case iarange (py_add reference step) fwd_stop step of
            Inl e \<Rightarrow> Inl e
          | Inr fwd \<Rightarrow>
              np_concatenate (as_sequence (rev back))
                (AxisArray (iarange_int_dtype (py_add reference step) fwd_stop step) fwd)))"

definition setup_sliding_windows ::
    "pynum \<Rightarrow> pynum \<times> pynum \<Rightarrow> pynum option \<Rightarrow> pynum option \<Rightarrow> bool \<Rightarrow> bool option
      \<Rightarrow> error + (real \<times> real) list" where
  "setup_sliding_windows width lims step reference force_int exclude_end =
     (let step = (case step of None \<Rightarrow> width | Some s \<Rightarrow> s);
          exclude_end = (case exclude_end of None \<Rightarrow> force_int | Some b \<Rightarrow> b);
          stop = (if exclude_end then py_add (py_sub (snd lims) width) (PyInt 1)
                  else py_sub (snd lims) width);
          win_starts =
            (case reference of
               None \<Rightarrow> iarange (fst lims) stop step
             | Some r \<Rightarrow> window_starts_ref r (fst lims) step stop)
      in case win_starts of
           Inl e \<Rightarrow> Inl e
         | Inr starts \<Rightarrow>
             (let ends = (if exclude_end then map (\<lambda>s. s + num_val width - 1) starts
                          else map (\<lambda>s. s + num_val width) starts);
                  starts' = (if force_int then map (\<lambda>s. of_int (np_round s)) starts else starts);
                  ends' = (if force_int then map (\<lambda>s. of_int (np_round s)) ends else ends)
              in Inr (zip starts' ends')))"

subsection \<open>Binary spike trains to timestamps\<close>

text \<open>
  \<^verbatim>\<open>bool_to_times(spike_bool, t)\<close> for a single (one-dimensional) train:
  \<^verbatim>\<open>t[spike_bool]\<close>, the entries of the time vector where the train is true.
  Boolean indexing needs a mask as long as the indexed array (\<^verbatim>\<open>IndexError\<close>
  otherwise). For a single train the \<^verbatim>\<open>axis\<close> argument is overwritten and has no effect.
\<close>

definition bool_to_times :: "bool list \<Rightarrow> real list \<Rightarrow> error + real list" where
  "bool_to_times spike_bool t =
     (if length spike_bool = length t
      then Inr (map fst (filter snd (zip t spike_bool)))
      else Inl IndexError)"

subsection \<open>Binned rates\<close>

text \<open>
  An array given by its shape and its values in C order (the \<^verbatim>\<open>bins\<close> argument after
  \<^verbatim>\<open>np.asarray\<close>), and the rows of an \<open>(n, 2)\<close> array as pairs.
\<close>

datatype ndarray = NDArray (shape: "nat list") (flat: "real list")

fun pairs :: "real list \<Rightarrow> (real \<times> real) list" where
  "pairs (a # b # xs) = (a, b) # pairs xs"
| "pairs xs = []"

definition bins_shape_ok :: "ndarray \<Rightarrow> bool" where
  "bins_shape_ok b = (length (shape b) = 2 \<and> shape b ! 1 = 2)"

text \<open>
  A float of the result: a finite value, or \<^verbatim>\<open>inf\<close>/\<^verbatim>\<open>nan\<close> from a division by a
  zero bin width (NumPy warns and does not raise).
\<close>

datatype npfloat = Finite real | NonFinite

definition true_divide :: "real \<Rightarrow> real \<Rightarrow> npfloat" where
  "true_divide c w = (if w = 0 then NonFinite else Finite (c / w))"

text \<open>
  The returned \<^verbatim>\<open>rates\<close> array: \<^verbatim>\<open>uint16\<close> counts or float rates; one row per cell of
  the object array, or a single vector when one spike train was given.
\<close>

datatype rates_out =
    Counts1 "16 word list"
  | CountsN "16 word list list"
  | Rates1 "npfloat list"
  | RatesN "npfloat list list"

text \<open>
  The bins are "standard" when \<^verbatim>\<open>np.allclose(widths, widths[0])\<close> and
  \<^verbatim>\<open>np.allclose(bins[1:,0], bins[:-1,1])\<close>.
\<close>

definition bin_widths :: "(real \<times> real) list \<Rightarrow> real list" where
  "bin_widths bins = map (\<lambda>b. snd b - fst b) bins"

definition std_bins :: "(real \<times> real) list \<Rightarrow> bool" where
  "std_bins bins =
     (np_allclose (bin_widths bins) (replicate (length bins) (hd (bin_widths bins))) \<and>
      np_allclose (map fst (tl bins)) (map snd (butlast bins)))"

text \<open>\<^verbatim>\<open>np.hstack((bins[:,0], bins[-1,-1]))\<close>: the edges handed to \<^verbatim>\<open>np.histogram\<close>.\<close>

definition hist_edges :: "(real \<times> real) list \<Rightarrow> real list" where
  "hist_edges bins = map fst bins @ [snd (last bins)]"

text \<open>
  The spike count of one train in every bin, before it is stored: the histogram path
  returns \<^verbatim>\<open>int64\<close> counts, the custom path \<^verbatim>\<open>uint16\<close> counts.
\<close>

datatype count_vec = Int64Counts "nat list" | UInt16Counts "16 word list"

definition count_spikes :: "(real \<times> real) list \<Rightarrow> real list \<Rightarrow> error + count_vec" where
  "count_spikes bins train =
     (if std_bins bins
      then (case histogram_count train (hist_edges bins) of
              Inl e \<Rightarrow> Inl e
            | Inr cs \<Rightarrow> Inr (Int64Counts cs))
      else Inr (UInt16Counts (custom_bin_count train bins)))"

text \<open>Storing a count vector into a row of the \<^verbatim>\<open>uint16\<close> array, or of the float array.\<close>

fun store_uint16 :: "count_vec \<Rightarrow> 16 word list" where
  "store_uint16 (Int64Counts cs) = map of_nat cs"
| "store_uint16 (UInt16Counts ws) = ws"

fun store_float :: "count_vec \<Rightarrow> real list" where
  "store_float (Int64Counts cs) = map real cs"
| "store_float (UInt16Counts ws) = map (\<lambda>w. real (unat w)) ws"

text \<open>The loop over \<^verbatim>\<open>data.flat\<close>: the first failing cell ends it.\<close>

fun count_all :: "(real \<times> real) list \<Rightarrow> real list list \<Rightarrow> error + count_vec list" where
  "count_all bins [] = Inr []"
| "count_all bins (train # trains) =
     (case count_spikes bins train of
        Inl e \<Rightarrow> Inl e
      | Inr c \<Rightarrow> (case count_all bins trains of
                    Inl e \<Rightarrow> Inl e
                  | Inr cs \<Rightarrow> Inr (c # cs)))"

text \<open>
  Lines 139-150: boolean data is converted to timestamps (the time vector is then
  required); a list or a non-object array is one spike train, enclosed in an object array
  of one cell. The result is the list of trains and whether a single train was given.
  A list has no \<^verbatim>\<open>ndim\<close>; a numeric array of 0/1 values cannot index the time vector.
  A numeric array that is not binary has been sorted in place by the classification
  (\<^verbatim>\<open>np.asarray\<close> of an array is the array itself); a list has not.
\<close>

definition to_trains ::
    "spike_data \<Rightarrow> int \<Rightarrow> real list option \<Rightarrow> error + (real list list \<times> bool)" where
  "to_trains data axis t =
     (case data of
        ObjArray cells \<Rightarrow> Inr (cells, False)
      | BoolArray bs \<Rightarrow>
          (case t of
             None \<Rightarrow> Inl (AssertionError NeedTimeVector)
           | Some tv \<Rightarrow>
               (case bool_to_times bs tv of
                  Inl e \<Rightarrow> Inl e
                | Inr ts \<Rightarrow> Inr ([ts], True)))
      | NumArray xs \<Rightarrow>
          if spike_data_type (NumArray xs) = Bool then
            (case t of
               None \<Rightarrow> Inl (AssertionError NeedTimeVector)
             | Some tv \<Rightarrow> Inl IndexError)
          else Inr ([snd (ndarray_sort xs)], True)
      | PyList xs \<Rightarrow>
          if spike_data_type (PyList xs) = Bool then
            (case t of
               None \<Rightarrow> Inl (AssertionError NeedTimeVector)
             | Some tv \<Rightarrow> if axis < 0 then Inl AttributeError else Inl IndexError)
          else Inr ([xs], True))"

text \<open>Lines 152-161: the bins, from \<^verbatim>\<open>lims\<close>, \<^verbatim>\<open>width\<close> and \<^verbatim>\<open>step\<close> or as given.\<close>

definition resolve_bins ::
    "(pynum \<times> pynum) option \<Rightarrow> pynum \<Rightarrow> pynum option \<Rightarrow> ndarray option
      \<Rightarrow> error + (real \<times> real) list" where
  "resolve_bins lims width step bins =
     (case bins of
        None \<Rightarrow>
          (case lims of
             None \<Rightarrow> Inl (AssertionError NeedLims)
           | Some l \<Rightarrow> setup_sliding_windows width l step None False None)
      | Some b \<Rightarrow>
          if bins_shape_ok b then Inr (pairs (flat b)) else Inl (AssertionError BinsNotNby2))"

text \<open>
  Lines 198-205: normalisation by the bin widths unless counts are asked for, removal
  of the singleton axis of a single train, and for boolean input the move of the bin
  axis back to \<^verbatim>\<open>axis\<close> (for a vector only axis 0 or -1 exists).
\<close>

definition finish_rates ::
    "bool \<Rightarrow> bool \<Rightarrow> (real \<times> real) list \<Rightarrow> count_vec list \<Rightarrow> rates_out" where
  "finish_rates count single_train bins cs =
     (if count then
        (if single_train then Counts1 (store_uint16 (hd cs)) else CountsN (map store_uint16 cs))
      else
        (let rows = map (\<lambda>c. map2 true_divide (store_float c) (bin_widths bins)) cs
         in if single_train then Rates1 (hd rows) else RatesN rows))"

definition bin_rate ::
    "spike_data \<Rightarrow> (pynum \<times> pynum) option \<Rightarrow> pynum \<Rightarrow> pynum option \<Rightarrow> ndarray option
      \<Rightarrow> bool \<Rightarrow> int \<Rightarrow> real list option \<Rightarrow> error + (rates_out \<times> (real \<times> real) list)" where
  "bin_rate data lims width step bins count axis t =
     (let is_bool = (spike_data_type data = Bool);
          axis' = (if is_bool \<and> axis < 0 then 1 + axis else axis)
      in case to_trains data axis t of
           Inl e \<Rightarrow> Inl e
         | Inr (trains, single_train) \<Rightarrow>
            (case resolve_bins lims width step bins of
               Inl e \<Rightarrow> Inl e
             | Inr bs \<Rightarrow>
                 if length bs < 2 then Inl IndexError
                 else
                  (case count_all bs trains of
                     Inl e \<Rightarrow> Inl e
                   | Inr cs \<Rightarrow>
                       if is_bool \<and> axis' \<noteq> 1 \<and> \<not> (- 1 \<le> axis' \<and> axis' \<le> 0)
                       then Inl AxisError
                       else Inr (finish_rates count single_train bs cs, bs))))"

subsection \<open>What a stored count stands for\<close>



subsection \<open>Cutting data into trials\<close>

text \<open>\<^verbatim>\<open>min()\<close> and \<^verbatim>\<open>max()\<close> of a non-empty array.\<close>

definition np_min :: "int list \<Rightarrow> int" where
  "np_min xs = fold min (tl xs) (hd xs)"

definition np_max :: "int list \<Rightarrow> int" where
  "np_max xs = fold max (tl xs) (hd xs)"

text \<open>
  \<^verbatim>\<open>scipy.stats.mode\<close>: the most frequent value, the smallest one when several are
  equally frequent.
\<close>

definition mode_int :: "int list \<Rightarrow> int" where
  "mode_int xs =
     (let m = np_max (map (\<lambda>x. int (count_list xs x)) xs)
      in np_min (filter (\<lambda>x. int (count_list xs x) = m) xs))"

text \<open>
  \<^verbatim>\<open>_check_window_lengths(windows, tol)\<close>. The lengths are
  \<^verbatim>\<open>np.diff(windows,axis=1).squeeze()\<close>, which for a single window is zero-dimensional,
  so that \<^verbatim>\<open>window_lengths[0]\<close> raises; \<^verbatim>\<open>np.ptp\<close> of no window raises.
\<close>

definition check_window_lengths :: "(int \<times> int) list \<Rightarrow> int \<Rightarrow> error + (int \<times> int) list" where
  "check_window_lengths windows tol =
     (let window_lengths = map (\<lambda>w. snd w - fst w) windows
      in if windows = [] then Inl ValueError
         else if length windows = 1 then Inl IndexError
         else if np_allclose (map of_int window_lengths)
                   (replicate (length windows) (of_int (hd window_lengths)))
         then Inr windows
         else
           (let modal_length = mode_int window_lengths;
                max_diff = np_max (map (\<lambda>l. \<bar>l - modal_length\<bar>) window_lengths)
            in if max_diff \<le> tol
               then Inr (map (\<lambda>w. (fst w, snd w + (modal_length - (snd w - fst w)))) windows)
               else Inl (AssertionError VariableLengthWindows)))"

text \<open>
  The result of cutting a one-dimensional array: its shape \<open>(n_smp_per_trial, n_trials)\<close>
  and, for each trial, the column \<^verbatim>\<open>cut_data[:, trial]\<close>.
\<close>

datatype 'a cut_array = CutArray (cut_shape: "nat list") (trial_columns: "'a list list")

text \<open>A slice \<^verbatim>\<open>data[a:b]\<close> with non-negative bounds.\<close>

definition py_slice :: "'a list \<Rightarrow> int \<Rightarrow> int \<Rightarrow> 'a list" where
  "py_slice xs a b = drop (nat a) (take (nat b) xs)"

text \<open>
  The assignment \<^verbatim>\<open>cut_data[...,trial] = segment\<close> into a column of \<open>n\<close> samples:
  the segment must have \<open>n\<close> samples, or one sample, which is broadcast.
\<close>

definition assign_column :: "nat \<Rightarrow> 'a list \<Rightarrow> error + 'a list" where
  "assign_column n seg =
     (if length seg = n then Inr seg
      else if length seg = 1 then Inr (replicate n (hd seg))
      else Inl ValueError)"

fun assign_columns :: "nat \<Rightarrow> 'a list \<Rightarrow> (int \<times> int) list \<Rightarrow> error + 'a list list" where
  "assign_columns n data [] = Inr []"
| "assign_columns n data (tlim # lims) =
     (case assign_column n (py_slice data (fst tlim) (snd tlim + 1)) of
        Inl e \<Rightarrow> Inl e
      | Inr col \<Rightarrow> (case assign_columns n data lims of
                      Inl e \<Rightarrow> Inl e
                    | Inr cols \<Rightarrow> Inr (col # cols)))"

text \<open>
  \<^verbatim>\<open>cut_trials_spike_bool(data, trial_lims, smp_rate)\<close> for one-dimensional data with the
  default time axis 0. \<open>is_list\<close> says that the data is a Python list, which has no
  \<^verbatim>\<open>shape\<close>.
\<close>

definition trial_indexes :: "real \<Rightarrow> ndarray \<Rightarrow> (int \<times> int) list" where
  "trial_indexes smp_rate trial_lims =
     map (\<lambda>l. (np_round (smp_rate * fst l), np_round (smp_rate * snd l))) (pairs (flat trial_lims))"

definition cut_trials_spike_bool ::
    "'a list \<Rightarrow> bool \<Rightarrow> ndarray \<Rightarrow> real option \<Rightarrow> error + 'a cut_array" where
  "cut_trials_spike_bool data is_list trial_lims smp_rate =
     (case smp_rate of
        None \<Rightarrow> Inl (AssertionError NeedSmpRate)
      | Some sr \<Rightarrow>
          if \<not> bins_shape_ok trial_lims then Inl (AssertionError TrialLimsNotNby2)
          else
            (let trial_idxs = trial_indexes sr trial_lims;
                 n_trials = length trial_idxs;
                 all_idxs = map fst trial_idxs @ map snd trial_idxs
             in if trial_idxs = [] then Inl ValueError
                else if \<not> 0 \<le> np_min all_idxs then Inl (AssertionError IndexBeforeStart)
                else if is_list then Inl AttributeError
                else if \<not> np_max all_idxs < int (length data)
                then Inl (AssertionError IndexBeyondEnd)
                else
                  (case check_window_lengths trial_idxs 1 of
                     Inl e \<Rightarrow> Inl e
                   | Inr idxs \<Rightarrow>
                       (let n_smp_per_trial = snd (hd idxs) - fst (hd idxs) + 1
                        in if n_smp_per_trial < 0 then Inl ValueError
                           else
                             (case assign_columns (nat n_smp_per_trial) data idxs of
                                Inl e \<Rightarrow> Inl e
                              | Inr cols \<Rightarrow>
                                  Inr (CutArray [nat n_smp_per_trial, n_trials] cols))))))"

text \<open>
  \<^verbatim>\<open>cut_trials_spike_times(data, trial_lims, trial_refs)\<close>: for every cell and every
  trial the timestamps with \<open>lim[0] \<le> t < lim[1]\<close>, re-referenced if asked for.
\<close>

definition cut_cell :: "real list \<Rightarrow> real \<times> real \<Rightarrow> real option \<Rightarrow> real list" where
  "cut_cell data_cell tlim ref =
     (let trial_spikes = filter (in_bin tlim) data_cell
      in case ref of None \<Rightarrow> trial_spikes | Some r \<Rightarrow> map (\<lambda>x. x - r) trial_spikes)"

definition cut_trials_spike_times ::
    "real list list \<Rightarrow> ndarray \<Rightarrow> real list option \<Rightarrow> error + real list list list" where
  "cut_trials_spike_times cells trial_lims trial_refs =
     (if \<not> bins_shape_ok trial_lims then Inl (AssertionError TrialLimsNotNby2)
      else
        (let lims = pairs (flat trial_lims)
         in case trial_refs of
              None \<Rightarrow> Inr (map (\<lambda>cell. map (\<lambda>tlim. cut_cell cell tlim None) lims) cells)
            | Some refs \<Rightarrow>
                if cells \<noteq> [] \<and> length refs < length lims then Inl IndexError
                else Inr (map (\<lambda>cell. map (\<lambda>(tlim, r). cut_cell cell tlim (Some r)) (zip lims refs))
                           cells)))"

text \<open>
  \<^verbatim>\<open>cut_trials(data, trial_lims, **kwargs)\<close> dispatches on the data type and hands the
  keyword arguments on; a keyword the chosen function does not have is a \<^verbatim>\<open>TypeError\<close>.
\<close>

datatype cut_kwargs = NoKwargs | SmpRate real | TrialRefs "real list"

datatype cut_out =
    CutBool "bool cut_array"
  | CutNum "real cut_array"
  | CutTimes "real list list list"

fun lift_cut :: "('a \<Rightarrow> cut_out) \<Rightarrow> error + 'a \<Rightarrow> error + cut_out" where
  "lift_cut f (Inl e) = Inl e"
| "lift_cut f (Inr x) = Inr (f x)"

fun cut_times_kw :: "real list list \<Rightarrow> ndarray \<Rightarrow> cut_kwargs \<Rightarrow> error + cut_out" where
  "cut_times_kw cells tlims NoKwargs = lift_cut CutTimes (cut_trials_spike_times cells tlims None)"
| "cut_times_kw cells tlims (TrialRefs refs) =
     lift_cut CutTimes (cut_trials_spike_times cells tlims (Some refs))"
| "cut_times_kw cells tlims (SmpRate sr) = Inl TypeError"

fun cut_bool_kw ::
    "('a cut_array \<Rightarrow> cut_out) \<Rightarrow> 'a list \<Rightarrow> bool \<Rightarrow> ndarray \<Rightarrow> cut_kwargs \<Rightarrow> error + cut_out" where
  "cut_bool_kw f xs is_list tlims NoKwargs = lift_cut f (cut_trials_spike_bool xs is_list tlims None)"
| "cut_bool_kw f xs is_list tlims (SmpRate sr) =
     lift_cut f (cut_trials_spike_bool xs is_list tlims (Some sr))"
| "cut_bool_kw f xs is_list tlims (TrialRefs refs) = Inl TypeError"

definition cut_trials :: "spike_data \<Rightarrow> ndarray \<Rightarrow> cut_kwargs \<Rightarrow> error + cut_out" where
  "cut_trials data trial_lims kwargs =
     (case data of
        ObjArray cells \<Rightarrow> cut_times_kw cells trial_lims kwargs
      | BoolArray bs \<Rightarrow> cut_bool_kw CutBool bs False trial_lims kwargs
      | NumArray xs \<Rightarrow>
          (case spike_data_type (NumArray xs) of
             Bool \<Rightarrow> cut_bool_kw CutNum xs False trial_lims kwargs
           | Timestamp \<Rightarrow> cut_times_kw [snd (ndarray_sort xs)] trial_lims kwargs
           | Rate \<Rightarrow> Inl ValueError)
      | PyList xs \<Rightarrow>
          (case spike_data_type (PyList xs) of
             Bool \<Rightarrow> cut_bool_kw CutNum xs True trial_lims kwargs
           | Timestamp \<Rightarrow> cut_times_kw [xs] trial_lims kwargs
           | Rate \<Rightarrow> Inl ValueError))"

subsection \<open>Realigning spike timestamps\<close>

text \<open>
  \<^verbatim>\<open>realign_spike_times\<close> assigns into the object array it is given, so the model has
  an explicit store: float arrays (the timestamp vectors) and object arrays live at
  addresses, the cells of an object array hold addresses of float arrays, and a
  subtraction \<^verbatim>\<open>cell - align_time\<close> allocates a new float array at the next free
  address. A trial-cut collection has at least two axes (\<^verbatim>\<open>cut_trials_spike_times\<close>
  appends the trial axis to the shape of its input); it is modelled as a two-dimensional
  object array \<open>(n\<^sub>0, n\<^sub>1)\<close> with its cells in C order. \<^verbatim>\<open>np.moveaxis\<close> returns a view:
  reads and writes through it are reads and writes of the same cells.
\<close>

type_synonym addr = nat

datatype objarray = ObjArr2 (dims: "nat \<times> nat") (cells: "addr list")

record store =
  arrays :: "addr \<Rightarrow> real list"
  collections :: "addr \<Rightarrow> objarray"
  next_free :: addr

text \<open>The timestamps a caller sees through a collection, cell by cell.\<close>

definition read_collection :: "store \<Rightarrow> addr \<Rightarrow> real list list" where
  "read_collection s c = map (arrays s) (cells (collections s c))"

text \<open>The trial axis of a two-dimensional array: 0 or 1, counted from the end when negative.\<close>

definition normalize_axis2 :: "int \<Rightarrow> error + nat" where
  "normalize_axis2 axis =
     (if axis = 0 \<or> axis = - 2 then Inr 0
      else if axis = 1 \<or> axis = - 1 then Inr 1
      else Inl AxisError)"

definition axis_len :: "nat \<times> nat \<Rightarrow> nat \<Rightarrow> nat" where
  "axis_len d ax = (if ax = 0 then fst d else snd d)"

text \<open>
  The cells selected by \<^verbatim>\<open>spike_times[trial,...]\<close> once the trial axis has been moved
  to the front (their positions in C order), and the trial a cell belongs to.
\<close>

definition slab_indexes :: "nat \<times> nat \<Rightarrow> nat \<Rightarrow> nat \<Rightarrow> nat list" where
  "slab_indexes d ax k =
     (if ax = 0 then map (\<lambda>j. k * snd d + j) [0 ..< snd d]
      else map (\<lambda>i. i * snd d + k) [0 ..< fst d])"

definition trial_of :: "nat \<times> nat \<Rightarrow> nat \<Rightarrow> nat \<Rightarrow> nat" where
  "trial_of d ax i = (if ax = 0 then i div snd d else i mod snd d)"

text \<open>
  One cell of \<^verbatim>\<open>spike_times[trial,...] = spike_times[trial,...] - align_time\<close>: the
  difference is a new array, and the cell is set to refer to it.
\<close>

definition shift_cell :: "addr \<Rightarrow> real \<Rightarrow> nat \<Rightarrow> store \<Rightarrow> store" where
  "shift_cell c align_time i s =
     (let arr = collections s c;
          new = next_free s
      in s\<lparr>arrays := (arrays s)(new := map (\<lambda>x. x - align_time) (arrays s (cells arr ! i))),
           collections := (collections s)(c := ObjArr2 (dims arr) ((cells arr)[i := new])),
           next_free := new + 1\<rparr>)"

text \<open>
  The loop \<^verbatim>\<open>for trial,align_time in enumerate(align_times)\<close>; indexing a trial the
  array does not have raises, after the earlier trials have been assigned.
\<close>

fun realign_loop :: "addr \<Rightarrow> nat \<Rightarrow> nat \<Rightarrow> real list \<Rightarrow> store \<Rightarrow> store \<times> error option" where
  "realign_loop c ax trial [] s = (s, None)"
| "realign_loop c ax trial (align_time # rest) s =
     (let d = dims (collections s c)
      in if trial < axis_len d ax
         then realign_loop c ax (trial + 1) rest
                (fold (shift_cell c align_time) (slab_indexes d ax trial) s)
         else (s, Some IndexError))"

text \<open>
  \<^verbatim>\<open>realign_spike_times(spike_times, align_times, trial_axis)\<close> returns the store after
  the call and either an error or the address of the returned array, which is the array
  it was given (or a view of it).
\<close>

definition realign_spike_times ::
    "store \<Rightarrow> addr \<Rightarrow> real list \<Rightarrow> int \<Rightarrow> store \<times> (error + addr)" where
  "realign_spike_times s spike_times align_times trial_axis =
     (case normalize_axis2 trial_axis of
        Inl e \<Rightarrow> (s, Inl e)
      | Inr ax \<Rightarrow>
          (case realign_loop spike_times ax 0 align_times s of
             (s', None) \<Rightarrow> (s', Inr spike_times)
           | (s', Some e) \<Rightarrow> (s', Inl e)))"

text \<open>
  A store with one collection of shape \<open>(1, 1)\<close> at address 1, whose only cell refers
  to the train \<open>[0.1, 0.3, 0.6]\<close> at address 0.
\<close>

definition example_store :: store where
  "example_store = \<lparr>arrays = (\<lambda>a. [])(0 := [1 / 10, 3 / 10, 6 / 10]),
             collections = (\<lambda>a. ObjArr2 (0, 0) [])(1 := ObjArr2 (1, 1) [0]),
             next_free = 2\<rparr>"

text \<open>
  The invariant of the realignment loop, relative to the store \<open>s0\<close> before the call:
  the cells in \<open>D\<close> refer to shifted copies, the other cells are as before, and nothing
  allocated before the call has changed.
\<close>

definition realign_inv ::
    "store \<Rightarrow> addr \<Rightarrow> (nat \<Rightarrow> real) \<Rightarrow> store \<Rightarrow> nat set \<Rightarrow> bool" where
  "realign_inv s0 c shift s D =
     (let cells0 = cells (collections s0 c); cs = cells (collections s c); n = length cells0
      in dims (collections s c) = dims (collections s0 c) \<and>
         length cs = n \<and>
         next_free s0 \<le> next_free s \<and>
         (\<forall>c'. c' \<noteq> c \<longrightarrow> collections s c' = collections s0 c') \<and>
         (\<forall>a < next_free s0. arrays s a = arrays s0 a) \<and>
         (\<forall>i < n. cells0 ! i < next_free s0) \<and>
         (\<forall>i < n. cs ! i < next_free s) \<and>
         (\<forall>i < n. i \<in> D \<longrightarrow> arrays s (cs ! i) = map (\<lambda>x. x - shift i) (arrays s0 (cells0 ! i))) \<and>
         (\<forall>i < n. i \<notin> D \<longrightarrow> cs ! i = cells0 ! i))"

subsection \<open>Timestamps to binary spike trains and back\<close>

text \<open>\<^verbatim>\<open>math.isclose(a, b)\<close> with its default relative tolerance \<open>1e-9\<close>.\<close>

definition math_isclose :: "real \<Rightarrow> real \<Rightarrow> bool" where
  "math_isclose a b = (\<bar>a - b\<bar> \<le> (1 / 10 ^ 9) * max \<bar>a\<bar> \<bar>b\<bar>)"

text \<open>
  The \<open>(n, 2)\<close> array \<^verbatim>\<open>np.stack((win_starts,win_ends),axis=1)\<close> that
  \<^verbatim>\<open>setup_sliding_windows\<close> returns.
\<close>

definition windows_array :: "(real \<times> real) list \<Rightarrow> ndarray" where
  "windows_array ws = NDArray [length ws, 2] (concat (map (\<lambda>w. [fst w, snd w]) ws))"

text \<open>
  A boolean result: a vector for a single train, one row per train otherwise.
  \<^verbatim>\<open>astype(bool)\<close> is true for every value other than zero, \<^verbatim>\<open>inf\<close> and \<^verbatim>\<open>nan\<close> included.
\<close>

datatype bool_out = Bool1 "bool list" | BoolN "bool list list"

fun truthy :: "npfloat \<Rightarrow> bool" where
  "truthy (Finite x) = (x \<noteq> 0)"
| "truthy NonFinite = True"

fun astype_bool :: "rates_out \<Rightarrow> bool_out" where
  "astype_bool (Rates1 r) = Bool1 (map truthy r)"
| "astype_bool (RatesN rows) = BoolN (map (map truthy) rows)"
| "astype_bool (Counts1 ws) = Bool1 (map (\<lambda>w. w \<noteq> 0) ws)"
| "astype_bool (CountsN rows) = BoolN (map (map (\<lambda>w. w \<noteq> 0)) rows)"

text \<open>
  \<^verbatim>\<open>times_to_bool(spike_times, lims, width, bins)\<close>. Lines 640-647 set the bins: for a
  width of 1 ms the limits are widened by half a millisecond on both sides.
  \<^verbatim>\<open>bins.mean(axis=1)\<close> needs an array of at least two axes.
\<close>

definition times_to_bool_bins ::
    "(pynum \<times> pynum) option \<Rightarrow> pynum \<Rightarrow> ndarray option \<Rightarrow> error + ndarray" where
  "times_to_bool_bins lims width bins =
     (case bins of
        Some b \<Rightarrow> Inr b
      | None \<Rightarrow>
          (case lims of
             None \<Rightarrow> Inl (AssertionError NeedLims)
           | Some l \<Rightarrow>
               (let l' = (if math_isclose (num_val width) (1 / 1000)
                          then (py_sub (fst l) (PyFloat (5 / 10000)), py_add (snd l) (PyFloat (5 / 10000)))
                          else l)
                in case setup_sliding_windows width l' (Some width) None False None of
                     Inl e \<Rightarrow> Inl e
                   | Inr ws \<Rightarrow> Inr (windows_array ws))))"

definition times_to_bool ::
    "spike_data \<Rightarrow> (pynum \<times> pynum) option \<Rightarrow> pynum \<Rightarrow> ndarray option
      \<Rightarrow> error + (bool_out \<times> real list)" where
  "times_to_bool spike_times lims width bins =
     (case times_to_bool_bins lims width bins of
        Inl e \<Rightarrow> Inl e
      | Inr b \<Rightarrow>
          if length (shape b) < 2 then Inl AxisError
          else
            (let timepts = map (\<lambda>p. (fst p + snd p) / 2) (pairs (flat b))
             in case bin_rate spike_times None (PyFloat (1 / 20)) None (Some b) False (- 1) None of
                  Inl e \<Rightarrow> Inl e
                | Inr (rates, bs) \<Rightarrow> Inr (astype_bool rates, timepts)))"





text \<open>The windows \<open>[a + i w, a + i w + w)\<close> for \<open>i < n\<close>.\<close>

definition regular_windows :: "real \<Rightarrow> real \<Rightarrow> nat \<Rightarrow> (real \<times> real) list" where
  "regular_windows a w n = map (\<lambda>i. (a + real i * w, a + real i * w + w)) [0 ..< n]"

subsection \<open>Spike density\<close>

text \<open>
  The routines of SciPy that \<^verbatim>\<open>density\<close> calls are parameters of the model: the window
  functions \<^verbatim>\<open>hann(M)\<close> and \<^verbatim>\<open>gaussian(M, std)\<close>, and the smoothing of lines 329 and
  345, \<^verbatim>\<open>convolve(data, kernel / (kernel.sum()/smp_rate), mode='same')\<close>, whose
  floating-point result (possibly \<^verbatim>\<open>inf\<close> or \<^verbatim>\<open>nan\<close>) is left open. The data handed to
  the convolution has one row per spike train, the time axis last.
\<close>

record scipy =
  convolve_same :: "real list list \<Rightarrow> real list \<Rightarrow> real \<Rightarrow> error + npfloat list list"
  hann :: "int \<Rightarrow> error + real list"
  gaussian :: "int \<Rightarrow> real \<Rightarrow> error + real list"

text \<open>The kernel argument: a name, or a function of the width (in samples).\<close>

datatype kernel_spec = KernelName string | KernelFun "real \<Rightarrow> real list"

text \<open>\<^verbatim>\<open>str.lower()\<close> on ASCII letters.\<close>

definition lower_char :: "char \<Rightarrow> char" where
  "lower_char c =
     (if 65 \<le> (of_char c :: nat) \<and> (of_char c :: nat) \<le> 90
      then (case c of Char b0 b1 b2 b3 b4 b5 b6 b7 \<Rightarrow> Char b0 b1 b2 b3 b4 True b6 b7)
      else c)"

definition py_lower :: "string \<Rightarrow> string" where
  "py_lower s = map lower_char s"

text \<open>\<^verbatim>\<open>_str_to_kernel(kernel, width)\<close>, the width in samples.\<close>

definition str_to_kernel :: "scipy \<Rightarrow> kernel_spec \<Rightarrow> real \<Rightarrow> error + real list" where
  "str_to_kernel sp kern width =
     (case kern of
        KernelFun f \<Rightarrow> Inr (f width)
      | KernelName s \<Rightarrow>
          (let k = py_lower s
           in if k \<in> set [''hann'', ''hanning''] then hann sp (np_round (width * 2))
              else if k \<in> set [''gaussian'', ''normal''] then gaussian sp (np_round (width * 6)) width
              else Inl ValueError))"

text \<open>Lines 298-301: the default buffer, from the kernel name as it was given.\<close>

definition default_buffer :: "kernel_spec \<Rightarrow> real \<Rightarrow> real" where
  "default_buffer kern width =
     (case kern of
        KernelFun f \<Rightarrow> 0
      | KernelName s \<Rightarrow>
          if s \<in> set [''hann'', ''hanning''] then width
          else if s \<in> set [''gaussian'', ''normal''] then 3 * width
          else 0)"

text \<open>Line 304: the time sampling vector, from \<^verbatim>\<open>lims\<close> and \<^verbatim>\<open>smp_rate\<close> unless given.\<close>

definition time_vector ::
    "(real \<times> real) option \<Rightarrow> real \<Rightarrow> real list option \<Rightarrow> error + real list" where
  "time_vector lims smp_rate t =
     (case t of
        Some tv \<Rightarrow> Inr tv
      | None \<Rightarrow>
          (case lims of
             None \<Rightarrow> Inl TypeError
           | Some l \<Rightarrow>
               if smp_rate = 0 then Inl ZeroDivisionError
               else np_arange (fst l) (snd l + 1 / 10 ^ 12) (1 / smp_rate)))"

text \<open>
  Lines 307-308: \<^verbatim>\<open>dt = np.diff(t).mean()\<close> and \<^verbatim>\<open>smp_rate = round(1/dt)\<close>. With fewer
  than two time points the mean is \<^verbatim>\<open>nan\<close>, with \<open>dt = 0\<close> the quotient is \<^verbatim>\<open>inf\<close>;
  \<^verbatim>\<open>round\<close> raises on both.
\<close>

definition np_diff :: "real list \<Rightarrow> real list" where
  "np_diff t = map2 (\<lambda>b a. b - a) (tl t) (butlast t)"

definition sample_period :: "real list \<Rightarrow> error + (real \<times> int)" where
  "sample_period t =
     (if length t < 2 then Inl ValueError
      else
        (let dt = sum_list (np_diff t) / real (length (np_diff t))
         in if dt = 0 then Inl OverflowError else Inr (dt, np_round (1 / dt))))"

text \<open>Lines 317-318: the time vector extended by \<open>n_buffer\<close> samples on both sides.\<close>

definition extend_time :: "real list \<Rightarrow> real \<Rightarrow> int \<Rightarrow> error + real list" where
  "extend_time t dt n_buffer =
     (case np_arange (hd t - dt) (hd t - of_int n_buffer * dt - 1 / 10 ^ 12) (- dt) of
        Inl e \<Rightarrow> Inl e
      | Inr before \<Rightarrow>
          (case np_arange (last t + dt) (last t + of_int n_buffer * dt + 1 / 10 ^ 12) dt of
             Inl e \<Rightarrow> Inl e
           | Inr after \<Rightarrow> Inr (rev before @ t @ after)))"

text \<open>
  Lines 321-324: the indexes that mirror the edges of binary data, and
  \<^verbatim>\<open>data.take(idxs)\<close>, where a negative index counts from the end and an index out of
  range raises.
\<close>

definition reflect_indexes :: "int \<Rightarrow> nat \<Rightarrow> int list" where
  "reflect_indexes n_buffer n_samples =
     rev (map (\<lambda>k. int k + 1) [0 ..< nat n_buffer]) @ map int [0 ..< n_samples] @
     map (\<lambda>k. int n_samples - 2 - int k) [0 ..< nat n_buffer]"

definition np_take :: "'a list \<Rightarrow> int list \<Rightarrow> error + 'a list" where
  "np_take xs idxs =
     (let n = int (length xs)
      in if list_all (\<lambda>i. - n \<le> i \<and> i < n) idxs
         then Inr (map (\<lambda>i. xs ! nat (if i < 0 then i + n else i)) idxs)
         else Inl IndexError)"

definition reflect_pad :: "'a list \<Rightarrow> int \<Rightarrow> int \<Rightarrow> error + 'a list" where
  "reflect_pad xs axis n_buffer =
     (if axis = 0 \<or> axis = - 1 then np_take xs (reflect_indexes n_buffer (length xs))
      else Inl IndexError)"

fun lift_data :: "('a \<Rightarrow> spike_data) \<Rightarrow> error + 'a \<Rightarrow> error + spike_data" where
  "lift_data f (Inl e) = Inl e"
| "lift_data f (Inr x) = Inr (f x)"

text \<open>Lines 320-324 on each kind of data: only data classified as binary is padded.\<close>

fun pad_data :: "spike_data \<Rightarrow> int \<Rightarrow> int \<Rightarrow> error + spike_data" where
  "pad_data (BoolArray bs) axis n_buffer = lift_data BoolArray (reflect_pad bs axis n_buffer)"
| "pad_data (NumArray xs) axis n_buffer =
     (if spike_data_type (NumArray xs) = Bool then lift_data NumArray (reflect_pad xs axis n_buffer)
      else Inr (NumArray xs))"
| "pad_data (PyList xs) axis n_buffer =
     (if spike_data_type (PyList xs) = Bool then Inl AttributeError else Inr (PyList xs))"
| "pad_data (ObjArray trains) axis n_buffer = Inr (ObjArray trains)"

text \<open>
  Lines 332-338: timestamps are binarised in the bins \<open>[t - dt/2, t + dt/2)\<close>; other
  data has its time axis moved to the end (for a vector only axis 0 or -1 exists). The
  result is the data as rows of numbers (a boolean as 0 or 1), whether it is a single
  train, and the time vector. A numeric array taken for rates was sorted in place when
  it was classified.
\<close>

fun bool_rows :: "bool_out \<Rightarrow> real list list \<times> bool" where
  "bool_rows (Bool1 sb) = ([map of_bool sb], True)"
| "bool_rows (BoolN rows) = (map (map of_bool) rows, False)"

definition binarise ::
    "spike_data \<Rightarrow> real list \<Rightarrow> real \<Rightarrow> error + (real list list \<times> bool \<times> real list)" where
  "binarise data t dt =
     (case times_to_bool data None (PyFloat (1 / 1000))
             (Some (windows_array (map (\<lambda>x. (x - dt / 2, x + dt / 2)) t))) of
        Inl e \<Rightarrow> Inl e
      | Inr (sb, timepts) \<Rightarrow> Inr (fst (bool_rows sb), snd (bool_rows sb), timepts))"

definition vector_time_last ::
    "real list \<Rightarrow> int \<Rightarrow> real list \<Rightarrow> error + (real list list \<times> bool \<times> real list)" where
  "vector_time_last xs axis t =
     (if axis \<noteq> 1 \<and> \<not> (- 1 \<le> axis \<and> axis \<le> 0) then Inl AxisError
      else Inr ([xs], True, t))"

fun time_axis_last ::
    "spike_data \<Rightarrow> int \<Rightarrow> real list \<Rightarrow> real
      \<Rightarrow> error + (real list list \<times> bool \<times> real list)" where
  "time_axis_last (ObjArray trains) axis t dt = binarise (ObjArray trains) t dt"
| "time_axis_last (BoolArray bs) axis t dt = vector_time_last (map of_bool bs) axis t"
| "time_axis_last (NumArray xs) axis t dt =
     (if spike_data_type (NumArray xs) = Timestamp then binarise (NumArray xs) t dt
      else if spike_data_type (NumArray xs) = Bool then vector_time_last xs axis t
      else vector_time_last (snd (ndarray_sort xs)) axis t)"
| "time_axis_last (PyList xs) axis t dt =
     (if spike_data_type (PyList xs) = Timestamp then binarise (PyList xs) t dt
      else Inl AttributeError)"

text \<open>
  \<^verbatim>\<open>_remove_buffer\<close>: the slice \<^verbatim>\<open>[buffer:-buffer]\<close> of the time axis, with Python's
  treatment of negative and too large bounds. Without rounding to at least one sample the
  upper bound \<^verbatim>\<open>-0\<close> is 0 and nothing is left.
\<close>

definition slice_bound :: "nat \<Rightarrow> int \<Rightarrow> nat" where
  "slice_bound n i = (if i < 0 then nat (max 0 (int n + i)) else min n (nat i))"

definition remove_buffer :: "int \<Rightarrow> 'a list \<Rightarrow> 'a list" where
  "remove_buffer buffer xs =
     (let a = slice_bound (length xs) buffer; b = slice_bound (length xs) (- buffer)
      in take (b - a) (drop a xs))"

text \<open>
  Lines 355-357: the slice \<^verbatim>\<open>[0::downsmp]\<close>. A zero step raises; a negative step walks
  backwards from index 0 and yields the first sample only.
\<close>

fun every_nth :: "nat \<Rightarrow> 'a list \<Rightarrow> 'a list" where
  "every_nth k [] = []"
| "every_nth k (x # xs) = x # every_nth k (drop (k - 1) xs)"

definition stride :: "int \<Rightarrow> 'a list \<Rightarrow> 'a list" where
  "stride k xs = (if 0 < k then every_nth (nat k) xs else take 1 xs)"

text \<open>
  Lines 361-363: every rate of a train whose data holds no spike is set to zero. The
  boolean mask has one row per row of the data and must fit the rates.
\<close>

definition no_spikes :: "real list \<Rightarrow> bool" where
  "no_spikes row = (\<not> list_ex (\<lambda>x. x \<noteq> 0) row)"

definition zero_fix :: "real list list \<Rightarrow> npfloat list list \<Rightarrow> error + npfloat list list" where
  "zero_fix data rates =
     (if length data = length rates
      then Inr (map2 (\<lambda>d r. if no_spikes d then map (\<lambda>x. Finite 0) r else r) data rates)
      else Inl IndexError)"

datatype density_out = Density1 "npfloat list" | DensityN "npfloat list list"

text \<open>Lines 347-369, after the convolution.\<close>

definition finish_density ::
    "real list list \<Rightarrow> bool \<Rightarrow> npfloat list list \<Rightarrow> real list \<Rightarrow> real \<Rightarrow> int \<Rightarrow> int
      \<Rightarrow> error + (density_out \<times> real list)" where
  "finish_density data single rates t buffer n_buffer downsmp =
     (let data1 = (if buffer \<noteq> 0 then map (remove_buffer n_buffer) data else data);
          rates1 = (if buffer \<noteq> 0 then map (remove_buffer n_buffer) rates else rates);
          t1 = (if buffer \<noteq> 0 then remove_buffer n_buffer t else t)
      in if downsmp = 0 then Inl ValueError
         else
           (let rates2 = (if downsmp \<noteq> 1 then map (stride downsmp) rates1 else rates1);
                t2 = (if downsmp \<noteq> 1 then stride downsmp t1 else t1)
            in case zero_fix data1 rates2 of
                 Inl e \<Rightarrow> Inl e
               | Inr rates3 \<Rightarrow>
                   Inr (if single then Density1 (hd rates3) else DensityN rates3, t2)))"

text \<open>
  \<^verbatim>\<open>density(data, kernel, width, lims, smp_rate, buffer, downsmp, axis, t)\<close>. A list has
  no \<^verbatim>\<open>ndim\<close>; the arrays of \<^typ>\<open>spike_data\<close> have one axis.
\<close>

definition density ::
    "scipy \<Rightarrow> spike_data \<Rightarrow> kernel_spec \<Rightarrow> real \<Rightarrow> (real \<times> real) option \<Rightarrow> real
      \<Rightarrow> real option \<Rightarrow> int \<Rightarrow> int \<Rightarrow> real list option
      \<Rightarrow> error + (density_out \<times> real list)" where
  "density sp data kern width lims smp_rate buffer downsmp axis t =
     (if axis < 0 \<and> (case data of PyList xs \<Rightarrow> True | _ \<Rightarrow> False) then Inl AttributeError
      else
        (let axis' = (if axis < 0 then 1 + axis else axis);
             buffer' = (case buffer of None \<Rightarrow> default_buffer kern width | Some b \<Rightarrow> b)
         in if spike_data_type data = Bool \<and> t = None
            then Inl (AssertionError NeedTimeVector)
            else
              (case time_vector lims smp_rate t of
                 Inl e \<Rightarrow> Inl e
               | Inr t0 \<Rightarrow>
                  (case sample_period t0 of
                     Inl e \<Rightarrow> Inl e
                   | Inr (dt, sr) \<Rightarrow>
                      (let n_buffer = np_round (buffer' * of_int sr)
                       in case (if buffer' \<noteq> 0 then extend_time t0 dt n_buffer else Inr t0) of
                            Inl e \<Rightarrow> Inl e
                          | Inr t1 \<Rightarrow>
                             (case (if buffer' \<noteq> 0 then pad_data data axis' n_buffer
                                    else Inr data) of
                                Inl e \<Rightarrow> Inl e
                              | Inr data1 \<Rightarrow>
                                 (case str_to_kernel sp kern (width * of_int sr) of
                                    Inl e \<Rightarrow> Inl e
                                  | Inr k \<Rightarrow>
                                     (case time_axis_last data1 axis' t1 dt of
                                        Inl e \<Rightarrow> Inl e
                                      | Inr (rows, single, t2) \<Rightarrow>
                                         (case convolve_same sp rows k (of_int sr) of
                                            Inl e \<Rightarrow> Inl e
                                          | Inr rates \<Rightarrow>
                                              finish_density rows single rates t2 buffer'
                                                n_buffer downsmp)))))))))"

text \<open>
  A stand-in for SciPy whose convolution leaves a residue of 1 at every sample, and
  whose windows are flat.
\<close>

definition noisy_scipy :: scipy where
  "noisy_scipy =
     \<lparr>convolve_same = (\<lambda>data k sr. Inr (map (map (\<lambda>x. Finite 1)) data)),
      hann = (\<lambda>m. Inr (replicate (nat m) 1)),
      gaussian = (\<lambda>m std. Inr (replicate (nat m) 1))\<rparr>"

section \<open>Properties\<close>

subsection \<open>The two counting paths\<close>

text \<open>
  C1. For a regular window set the histogram path and the explicit-inclusion path
  should give the same counts. They do not: for the regular bins \<open>[0,1), [1,2)\<close> and
  a single spike at 2, the end of the final bin, \<^verbatim>\<open>_histogram_count\<close> counts the spike
  in the last bin (the last bin of \<^verbatim>\<open>np.histogram\<close> is closed) and
  \<^verbatim>\<open>_custom_bin_count\<close> counts it nowhere.
\<close>

theorem counting_paths_differ_at_final_edge:
  "std_bins [(0, 1), (1, 2)] \<and>
   histogram_count [2] (hist_edges [(0, 1), (1, 2)]) = Inr [0, 1] \<and>
   custom_bin_count [2] [(0, 1), (1, 2)] = [0, 0]"
  by (simp add: std_bins_def np_allclose_def isclose_np_def bin_widths_def hist_edges_def
      histogram_count_def np_histogram_def custom_bin_count_def in_bin_def)

text \<open>
  C2. A spike is to be counted in a bin exactly when \<open>start \<le> t < end\<close>, and a
  timestamp equal to the final bin's end in no bin. On the bins \<open>[0,1), [1,2)\<close>,
  \<^verbatim>\<open>bin_rate\<close> with \<^verbatim>\<open>count=True\<close> takes the histogram path and counts the spike at 2 in
  the last bin, although it is not in \<open>[1,2)\<close>.
\<close>

theorem bin_rate_counts_final_edge:
  "bin_rate (NumArray [2]) None (PyFloat 1) None (Some (NDArray [2, 2] [0, 1, 1, 2])) True (- 1) None
     = Inr (Counts1 [0, 1], [(0, 1), (1, 2)]) \<and> \<not> in_bin (1, 2) 2"
  by (simp add: bin_rate_def to_trains_def resolve_bins_def bins_shape_ok_def
      sorted_1d_test_def ndarray_sort_def np_all_def count_spikes_def
      std_bins_def np_allclose_def isclose_np_def bin_widths_def hist_edges_def
      histogram_count_def np_histogram_def finish_rates_def in_bin_def)

subsection \<open>Classification\<close>

text \<open>
  C4. A flat numeric sequence sorted in ascending order with a value outside \<open>{0,1}\<close>
  should be classified as timestamps. The sorted train \<open>[0.1, 0.3, 0.6]\<close> is classified
  as a rate: \<^verbatim>\<open>data.sort()\<close> returns \<^verbatim>\<open>None\<close>, so the comparison with \<^verbatim>\<open>data\<close> is false
  at every element.
\<close>

theorem sorted_train_classified_as_rate:
  "sorted [1 / 10, 3 / 10, 6 / 10 :: real] \<and>
   spike_data_type (NumArray [1 / 10, 3 / 10, 6 / 10]) = Rate"
  by (simp add: sorted_1d_test_def ndarray_sort_def np_all_def)

subsection \<open>Windows anchored at a reference\<close>

text \<open>
  C5. With a reference, \<^verbatim>\<open>setup_sliding_windows\<close> should return windows one of which
  starts at the reference. It returns no windows at all: whatever the arguments, the
  call of \<^verbatim>\<open>np.concatenate\<close> with the two series as separate arguments raises.
\<close>

theorem setup_sliding_windows_reference_raises:
  "\<exists>e. setup_sliding_windows width lims step (Some r) force_int exclude_end = Inl e"
proof -
  have cat: "\<exists>e. np_concatenate (as_sequence xs) ax = Inl e" for xs ax
    by (cases "axis_index ax"; cases xs)
       (simp_all add: np_concatenate_def as_sequence_def)
  have ref: "\<exists>e. window_starts_ref r' lo st fs = Inl e" for r' lo st fs
    using cat by (auto simp: window_starts_ref_def split: sum.splits)
  define st where "st = (case step of None \<Rightarrow> width | Some s \<Rightarrow> s)"
  define ee where "ee = (case exclude_end of None \<Rightarrow> force_int | Some b \<Rightarrow> b)"
  define stop where "stop = (if ee then py_add (py_sub (snd lims) width) (PyInt 1)
                             else py_sub (snd lims) width)"
  obtain e where "window_starts_ref r (fst lims) st stop = Inl e"
    using ref by blast
  then have "setup_sliding_windows width lims step (Some r) force_int exclude_end = Inl e"
    by (simp add: setup_sliding_windows_def Let_def st_def ee_def stop_def)
  then show ?thesis ..
qed

subsection \<open>Counts stored as unsigned 16-bit integers\<close>

lemma count_all_length: "count_all bs trains = Inr cs \<Longrightarrow> length cs = length trains"
  by (induction trains arbitrary: cs) (auto split: sum.splits)

lemma count_all_nth:
  "count_all bs trains = Inr cs \<Longrightarrow> i < length trains \<Longrightarrow> count_spikes bs (trains ! i) = Inr (cs ! i)"
  by (induction trains arbitrary: cs i) (auto split: sum.splits simp: nth_Cons split: nat.splits)

lemma hist_counts_length: "length (hist_counts a es) = length es - 1"
  by (induction a es rule: hist_counts.induct) auto

lemma hist_counts_nth:
  "j + 1 < length es \<Longrightarrow>
     hist_counts a es ! j =
       (if j + 2 = length es then length (filter (\<lambda>x. es ! j \<le> x \<and> x \<le> es ! (j + 1)) a)
        else length (filter (\<lambda>x. es ! j \<le> x \<and> x < es ! (j + 1)) a))"
proof (induction a es arbitrary: j rule: hist_counts.induct)
  case (1 a e0 e1)
  then show ?case by simp
next
  case (2 a e0 e1 v va)
  then show ?case by (cases j) auto
qed simp_all

lemma hist_edges_nth:
  "j < length bs \<Longrightarrow> hist_edges bs ! j = fst (bs ! j)"
  "bs \<noteq> [] \<Longrightarrow> hist_edges bs ! length bs = snd (last bs)"
  by (simp_all add: hist_edges_def nth_append)





subsection \<open>Missing limits and malformed bins\<close>

text \<open>
  C9, as stated: a supplied \<^verbatim>\<open>bins\<close> array that is not rank-2 with 2 columns makes
  \<^verbatim>\<open>bin_rate\<close> fail with a shape error. For boolean data given without a time vector the
  failure is the earlier assertion on \<^verbatim>\<open>t\<close>, which is not a shape error.
\<close>

theorem bin_rate_bad_bins_not_always_shape_error:
  "\<not> bins_shape_ok (NDArray [3] [0, 1, 2]) \<and>
   bin_rate (BoolArray [True, False]) None (PyFloat (1 / 20)) None (Some (NDArray [3] [0, 1, 2]))
       False (- 1) None = Inl (AssertionError NeedTimeVector) \<and>
   \<not> is_shape_error (AssertionError NeedTimeVector)"
  by (simp add: bins_shape_ok_def bin_rate_def to_trains_def)

text \<open>
  C9, amended. Without \<^verbatim>\<open>lims\<close> and without \<^verbatim>\<open>bins\<close>, \<^verbatim>\<open>bin_rate\<close> returns no
  result; so it does for a \<^verbatim>\<open>bins\<close> array that is not rank-2 with 2 columns. Once the
  data has been accepted as spike trains (lines 139-150), the error is the assertion on
  \<^verbatim>\<open>lims\<close>, a configuration error, respectively the assertion on the shape of
  \<^verbatim>\<open>bins\<close>, a shape error.
\<close>

theorem bin_rate_missing_lims_or_bad_bins_fails:
  "(\<exists>e. bin_rate data None width step None count axis t = Inl e \<and>
        (\<forall>x. to_trains data axis t = Inr x \<longrightarrow>
           e = AssertionError NeedLims \<and> is_configuration_error e)) \<and>
   (\<not> bins_shape_ok b \<longrightarrow>
      (\<exists>e. bin_rate data lims width step (Some b) count axis t = Inl e \<and>
           (\<forall>x. to_trains data axis t = Inr x \<longrightarrow>
              e = AssertionError BinsNotNby2 \<and> is_shape_error e)))"
proof (cases "to_trains data axis t")
  case (Inl e)
  then show ?thesis by (simp add: bin_rate_def)
next
  case (Inr x)
  then show ?thesis
    by (cases x) (simp add: bin_rate_def resolve_bins_def)
qed

theorem bin_rate_missing_lims_or_bad_bins_fails_witness:
  "to_trains (ObjArray [[1 / 10, 3 / 10]]) (- 1) None = Inr ([[1 / 10, 3 / 10]], False) \<and>
   bin_rate (ObjArray [[1 / 10, 3 / 10]]) None (PyFloat (1 / 20)) None None False (- 1) None
     = Inl (AssertionError NeedLims) \<and>
   \<not> bins_shape_ok (NDArray [3] [0, 1, 2]) \<and>
   bin_rate (ObjArray [[1 / 10, 3 / 10]]) None (PyFloat (1 / 20)) None
       (Some (NDArray [3] [0, 1, 2])) False (- 1) None
     = Inl (AssertionError BinsNotNby2)"
proof -
  have tt: "to_trains (ObjArray [[1 / 10, 3 / 10]]) (- 1) None = Inr ([[1 / 10, 3 / 10]], False)"
    by (simp add: to_trains_def)
  have nb: "\<not> bins_shape_ok (NDArray [3] [0, 1, 2])"
    by (simp add: bins_shape_ok_def)
  from bin_rate_missing_lims_or_bad_bins_fails
         [of "ObjArray [[1 / 10, 3 / 10]]" "PyFloat (1 / 20)" None False "- 1" None
             "NDArray [3] [0, 1, 2]" None]
  show ?thesis using tt nb by auto
qed

subsection \<open>Cutting continuous boolean data into trials\<close>

lemma np_round_of_int [simp]: "np_round (of_int k) = k"
  by (simp add: np_round_def)

lemma np_round_numeral [simp]: "np_round (numeral k) = numeral k" "np_round 0 = 0" "np_round 1 = 1"
  using np_round_of_int[of "numeral k"] np_round_of_int[of 0] np_round_of_int[of 1] by simp_all

lemma np_min_Min: "xs \<noteq> [] \<Longrightarrow> np_min xs = Min (set xs)"
  unfolding np_min_def using Min.set_eq_fold[of "hd xs" "tl xs"] by simp

lemma np_max_Max: "xs \<noteq> [] \<Longrightarrow> np_max xs = Max (set xs)"
  unfolding np_max_def using Max.set_eq_fold[of "hd xs" "tl xs"] by simp

lemma np_min_ge_iff: "xs \<noteq> [] \<Longrightarrow> (k \<le> np_min xs) = (\<forall>x\<in>set xs. k \<le> x)"
  by (simp add: np_min_Min)

lemma np_max_less_iff: "xs \<noteq> [] \<Longrightarrow> (np_max xs < k) = (\<forall>x\<in>set xs. x < k)"
  by (simp add: np_max_Max)

lemma set_pairs_even:
  "even (length xs) \<Longrightarrow> fst ` set (pairs xs) \<union> snd ` set (pairs xs) = set xs"
  by (induction xs rule: pairs.induct) auto

lemma pairs_eq_Nil: "even (length xs) \<Longrightarrow> (pairs xs = []) = (xs = [])"
  by (induction xs rule: pairs.induct) auto

lemma check_window_lengths_error:
  "check_window_lengths ws tol = Inl e \<Longrightarrow> \<not> is_range_error e"
  by (auto simp: check_window_lengths_def Let_def split: if_splits)

lemma assign_columns_error:
  "assign_columns n xs ws = Inl e \<Longrightarrow> e = ValueError"
  by (induction ws arbitrary: e) (auto simp: assign_column_def split: sum.splits if_splits)

lemma cut_bool_range_error:
  assumes ok: "bins_shape_ok tlims" and wf: "length (flat tlims) = prod_list (shape tlims)"
  shows "(\<exists>e. cut_trials_spike_bool (xs :: 'a list) False tlims (Some sr) = Inl e \<and> is_range_error e) \<longleftrightarrow>
         (\<exists>x\<in>set (flat tlims). np_round (sr * x) < 0 \<or> int (length xs) \<le> np_round (sr * x))"
proof -
  obtain n m where sh: "shape tlims = [n, m]" "m = 2"
    using ok by (cases "shape tlims"; cases "tl (shape tlims)"; auto simp: bins_shape_ok_def)
  then have ev: "even (length (flat tlims))" using wf by simp
  define idxs where "idxs = trial_indexes sr tlims"
  define alls where "alls = map fst idxs @ map snd idxs"
  have set_alls: "set alls = (\<lambda>x. np_round (sr * x)) ` set (flat tlims)"
  proof -
    have "set alls = (\<lambda>x. np_round (sr * x)) ` (fst ` set (pairs (flat tlims)) \<union> snd ` set (pairs (flat tlims)))"
      by (auto simp: alls_def idxs_def trial_indexes_def image_Un image_image)
    then show ?thesis by (simp add: set_pairs_even[OF ev])
  qed
  show ?thesis
  proof (cases "flat tlims = []")
    case True
    then show ?thesis using ok
      by (simp add: cut_trials_spike_bool_def trial_indexes_def)
  next
    case False
    then have ne: "idxs \<noteq> []" "alls \<noteq> []"
      using pairs_eq_Nil[OF ev] by (auto simp: idxs_def alls_def trial_indexes_def)
    show ?thesis
    proof (cases "0 \<le> np_min alls")
      case neg: False
      then obtain y where "y \<in> set alls" "y < 0"
        using np_min_ge_iff[OF ne(2), of 0] by (meson not_le)
      then have "\<exists>x\<in>set (flat tlims). np_round (sr * x) < 0"
        unfolding set_alls by blast
      moreover have "cut_trials_spike_bool xs False tlims (Some sr) = Inl (AssertionError IndexBeforeStart)"
        using neg ne ok by (simp add: cut_trials_spike_bool_def Let_def idxs_def[symmetric] alls_def[symmetric])
      ultimately show ?thesis by auto
    next
      case pos: True
      then have "\<forall>y\<in>set alls. 0 \<le> y"
        using np_min_ge_iff[OF ne(2), of 0] by simp
      then have nonneg: "\<forall>x\<in>set (flat tlims). \<not> np_round (sr * x) < 0"
        unfolding set_alls by (simp add: not_less)
      show ?thesis
      proof (cases "np_max alls < int (length xs)")
        case big: False
        then obtain y where "y \<in> set alls" "int (length xs) \<le> y"
          using np_max_less_iff[OF ne(2), of "int (length xs)"] by (meson not_le)
        then have "\<exists>x\<in>set (flat tlims). int (length xs) \<le> np_round (sr * x)"
          unfolding set_alls by blast
        moreover have "cut_trials_spike_bool xs False tlims (Some sr) = Inl (AssertionError IndexBeyondEnd)"
          using pos big ne ok
          by (simp add: cut_trials_spike_bool_def Let_def idxs_def[symmetric] alls_def[symmetric])
        ultimately show ?thesis by auto
      next
        case small: True
        then have "\<forall>y\<in>set alls. y < int (length xs)"
          using np_max_less_iff[OF ne(2), of "int (length xs)"] by simp
        then have inr: "\<forall>x\<in>set (flat tlims). \<not> int (length xs) \<le> np_round (sr * x)"
          unfolding set_alls by (simp add: not_le)
        have "\<not> is_range_error e" if "cut_trials_spike_bool xs False tlims (Some sr) = Inl e" for e
          using that pos small ne ok
          by (auto simp: cut_trials_spike_bool_def Let_def idxs_def[symmetric] alls_def[symmetric]
                split: sum.splits if_splits
                dest: check_window_lengths_error assign_columns_error)
        then show ?thesis using nonneg inr by auto
      qed
    qed
  qed
qed

text \<open>
  C3, as stated: on 1000 boolean samples at 1000 Hz with trial limits
  \<open>[[0,0.5],[0.5,1.0]]\<close>, \<^verbatim>\<open>cut_trials\<close> returns an array with two trials of 500 samples.
  The end 1.0 s is sample index 1000, and the data has the indexes 0 to 999: the call
  fails on \<^verbatim>\<open>assert trial_idxs.max() < data.shape[axis]\<close>.
\<close>

theorem cut_trials_spec_example_raises:
  "cut_trials (BoolArray (replicate 1000 False)) (NDArray [2, 2] [0, 1 / 2, 1 / 2, 1]) (SmpRate 1000)
     = Inl (AssertionError IndexBeyondEnd)"
  by (simp add: cut_trials_def cut_trials_spike_bool_def bins_shape_ok_def trial_indexes_def
      np_min_def np_max_def)

text \<open>
  C3, amended. On 1000 boolean samples at 1000 Hz (and an \<open>(n, 2)\<close> array of trial
  limits), \<^verbatim>\<open>cut_trials\<close> fails with a range error exactly when some trial limit \<open>x\<close>
  has a sample index \<open>round(1000 x)\<close> below 0 or above 999; with the trial limits
  \<open>[[0,0.499],[0.5,0.999]]\<close> it returns an array of shape \<open>(500, 2)\<close>, the trial axis
  last, whose columns are the first and the second 500 samples.
\<close>

theorem cut_trials_1000_samples:
  assumes "length bs = 1000"
  shows "(bins_shape_ok tlims \<and> length (flat tlims) = prod_list (shape tlims) \<longrightarrow>
           ((\<exists>e. cut_trials (BoolArray bs) tlims (SmpRate 1000) = Inl e \<and> is_range_error e) \<longleftrightarrow>
            (\<exists>x\<in>set (flat tlims). np_round (1000 * x) < 0 \<or> 999 < np_round (1000 * x)))) \<and>
         cut_trials (BoolArray bs) (NDArray [2, 2] [0, 499 / 1000, 1 / 2, 999 / 1000]) (SmpRate 1000)
           = Inr (CutBool (CutArray [500, 2] [take 500 bs, drop 500 bs]))"
proof (intro conjI impI)
  assume a: "bins_shape_ok tlims \<and> length (flat tlims) = prod_list (shape tlims)"
  have "(\<exists>e. cut_trials (BoolArray bs) tlims (SmpRate 1000) = Inl e \<and> is_range_error e) \<longleftrightarrow>
        (\<exists>e. cut_trials_spike_bool bs False tlims (Some 1000) = Inl e \<and> is_range_error e)"
    by (cases "cut_trials_spike_bool bs False tlims (Some 1000)") (simp_all add: cut_trials_def)
  also have "\<dots> \<longleftrightarrow> (\<exists>x\<in>set (flat tlims). np_round (1000 * x) < 0 \<or> int (length bs) \<le> np_round (1000 * x))"
    using a by (intro cut_bool_range_error) auto
  also have "\<dots> \<longleftrightarrow> (\<exists>x\<in>set (flat tlims). np_round (1000 * x) < 0 \<or> 999 < np_round (1000 * x))"
  proof -
    have "(1000 \<le> k) = (999 < k)" for k :: int by arith
    then show ?thesis using assms by simp
  qed
  finally show "(\<exists>e. cut_trials (BoolArray bs) tlims (SmpRate 1000) = Inl e \<and> is_range_error e) \<longleftrightarrow>
            (\<exists>x\<in>set (flat tlims). np_round (1000 * x) < 0 \<or> 999 < np_round (1000 * x))" .
next
  show "cut_trials (BoolArray bs) (NDArray [2, 2] [0, 499 / 1000, 1 / 2, 999 / 1000]) (SmpRate 1000)
           = Inr (CutBool (CutArray [500, 2] [take 500 bs, drop 500 bs]))"
    using assms
    by (simp add: cut_trials_def cut_trials_spike_bool_def bins_shape_ok_def trial_indexes_def
        np_min_def np_max_def check_window_lengths_def np_allclose_def isclose_np_def
        assign_column_def py_slice_def)
qed

theorem cut_trials_1000_samples_witness:
  "length (replicate 1000 False) = 1000 \<and>
   bins_shape_ok (NDArray [2, 2] [0, 1 / 2, 1 / 2, 11 / 10]) \<and>
   length (flat (NDArray [2, 2] [0, 1 / 2, 1 / 2, 11 / 10])) = prod_list (shape (NDArray [2, 2] [0, 1 / 2, 1 / 2, 11 / 10])) \<and>
   (\<exists>e. cut_trials (BoolArray (replicate 1000 False)) (NDArray [2, 2] [0, 1 / 2, 1 / 2, 11 / 10]) (SmpRate 1000) = Inl e
        \<and> is_range_error e) \<and>
   cut_trials (BoolArray (replicate 1000 False)) (NDArray [2, 2] [0, 499 / 1000, 1 / 2, 999 / 1000]) (SmpRate 1000)
           = Inr (CutBool (CutArray [500, 2] [replicate 500 False, replicate 500 False]))"
proof -
  have l: "length (replicate 1000 False) = 1000" by simp
  have ok: "bins_shape_ok (NDArray [2, 2] [0, 1 / 2, 1 / 2, 11 / 10])" by (simp add: bins_shape_ok_def)
  have r: "np_round (1000 * (11 / 10)) = 1100"
    using np_round_of_int[of 1100] by simp
  from cut_trials_1000_samples[OF l, of "NDArray [2, 2] [0, 1 / 2, 1 / 2, 11 / 10]"] ok r
  show ?thesis by simp
qed


subsection \<open>Realignment and the caller's collection\<close>

lemma realign_inv_step:
  assumes inv: "realign_inv s0 c shift s D"
      and i: "i < length (cells (collections s0 c))" "i \<notin> D" "shift i = a"
  shows "realign_inv s0 c shift (shift_cell c a i s) (insert i D)"
proof -
  let ?cells0 = "cells (collections s0 c)"
  let ?cs = "cells (collections s c)"
  let ?n = "length ?cells0"
  let ?new = "next_free s"
  let ?s' = "shift_cell c a i s"
  from inv have
    d: "dims (collections s c) = dims (collections s0 c)" and
    l: "length ?cs = ?n" and
    nf: "next_free s0 \<le> next_free s" and
    oth: "\<forall>c'. c' \<noteq> c \<longrightarrow> collections s c' = collections s0 c'" and
    old: "\<forall>a < next_free s0. arrays s a = arrays s0 a" and
    wf0: "\<forall>i < ?n. ?cells0 ! i < next_free s0" and
    wf: "\<forall>i < ?n. ?cs ! i < next_free s" and
    dn: "\<forall>i < ?n. i \<in> D \<longrightarrow> arrays s (?cs ! i) = map (\<lambda>x. x - shift i) (arrays s0 (?cells0 ! i))" and
    todo: "\<forall>i < ?n. i \<notin> D \<longrightarrow> ?cs ! i = ?cells0 ! i"
    by (simp_all add: realign_inv_def Let_def)
  have cs': "cells (collections ?s' c) = ?cs[i := ?new]"
    by (simp add: shift_cell_def Let_def)
  have ar': "arrays ?s' = (arrays s)(?new := map (\<lambda>x. x - a) (arrays s (?cs ! i)))"
    by (simp add: shift_cell_def Let_def)
  have nf': "next_free ?s' = ?new + 1"
    by (simp add: shift_cell_def Let_def)
  have ci: "?cs ! i = ?cells0 ! i" using todo i by simp
  have ci0: "arrays s (?cs ! i) = arrays s0 (?cells0 ! i)"
    using ci wf0 old i by simp
  have 1: "dims (collections ?s' c) = dims (collections s0 c)"
    using d by (simp add: shift_cell_def Let_def)
  have 2: "length (cells (collections ?s' c)) = ?n" using l by (simp add: cs')
  have 3: "next_free s0 \<le> next_free ?s'" using nf by (simp add: nf')
  have 4: "\<forall>c'. c' \<noteq> c \<longrightarrow> collections ?s' c' = collections s0 c'"
    using oth by (simp add: shift_cell_def Let_def)
  have 5: "\<forall>a < next_free s0. arrays ?s' a = arrays s0 a"
    using old nf by (simp add: ar')
  have 7: "\<forall>j < ?n. cells (collections ?s' c) ! j < next_free ?s'"
  proof (intro allI impI)
    fix j assume "j < ?n"
    then show "cells (collections ?s' c) ! j < next_free ?s'"
      using wf l by (cases "j = i") (auto simp: cs' nf' nth_list_update less_Suc_eq)
  qed
  have 8: "\<forall>j < ?n. j \<in> insert i D \<longrightarrow>
             arrays ?s' (cells (collections ?s' c) ! j) = map (\<lambda>x. x - shift j) (arrays s0 (?cells0 ! j))"
  proof (intro allI impI)
    fix j assume j: "j < ?n" "j \<in> insert i D"
    show "arrays ?s' (cells (collections ?s' c) ! j) = map (\<lambda>x. x - shift j) (arrays s0 (?cells0 ! j))"
    proof (cases "j = i")
      case True
      then show ?thesis using l i ci0 by (simp add: cs' ar')
    next
      case False
      then have "j \<in> D" using j by simp
      moreover have "?cs ! j \<noteq> ?new" using wf j by auto
      ultimately show ?thesis using False dn j l by (simp add: cs' ar')
    qed
  qed
  have 9: "\<forall>j < ?n. j \<notin> insert i D \<longrightarrow> cells (collections ?s' c) ! j = ?cells0 ! j"
    using todo by (simp add: cs')
  show ?thesis
    unfolding realign_inv_def Let_def
    using 1 2 3 4 5 wf0 7 8 9 by blast
qed

lemma realign_inv_fold:
  assumes "realign_inv s0 c shift s D" "distinct js" "set js \<inter> D = {}"
      and "\<forall>j\<in>set js. j < length (cells (collections s0 c)) \<and> shift j = a"
  shows "realign_inv s0 c shift (fold (shift_cell c a) js s) (D \<union> set js)"
  using assms
proof (induction js arbitrary: s D)
  case Nil
  then show ?case by simp
next
  case (Cons j js)
  have "realign_inv s0 c shift (shift_cell c a j s) (insert j D)"
    using Cons.prems by (intro realign_inv_step) auto
  then have "realign_inv s0 c shift (fold (shift_cell c a) js (shift_cell c a j s)) (insert j D \<union> set js)"
    using Cons.prems by (intro Cons.IH) auto
  then show ?case by simp
qed

lemma nat_offset_ex: "(a::nat) \<le> x \<Longrightarrow> x < n + a \<Longrightarrow> \<exists>j<n. x = a + j"
  by (rule exI[of _ "x - a"]) auto

lemma slab_indexes_set:
  assumes "k < axis_len d ax"
  shows "set (slab_indexes d ax k) = {i. i < fst d * snd d \<and> trial_of d ax i = k}"
proof (cases "ax = 0")
  case True
  obtain n0 n1 where d: "d = (n0, n1)" by (cases d)
  have k: "k < n0" using assms True by (simp add: axis_len_def d)
  have "(\<exists>j<n1. i = k * n1 + j) \<longleftrightarrow> (i < n0 * n1 \<and> i div n1 = k)" for i
  proof
    assume "\<exists>j<n1. i = k * n1 + j"
    then obtain j where j: "j < n1" "i = k * n1 + j" by blast
    have "k * n1 + j < (k + 1) * n1" using j by simp
    also have "\<dots> \<le> n0 * n1" using k by (intro mult_le_mono1) simp
    finally show "i < n0 * n1 \<and> i div n1 = k" using j by simp
  next
    assume a: "i < n0 * n1 \<and> i div n1 = k"
    then have "n1 \<noteq> 0" by (cases n1) auto
    then have "i mod n1 < n1" by simp
    moreover have "i = k * n1 + i mod n1" using a by (metis div_mult_mod_eq)
    ultimately show "\<exists>j<n1. i = k * n1 + j" by blast
  qed
  moreover have "set (slab_indexes d ax k) = {i. \<exists>j<n1. i = k * n1 + j}"
    unfolding slab_indexes_def set_map set_upt image_def using True
    by (auto simp: d intro: nat_offset_ex)
  ultimately show ?thesis using True by (simp add: trial_of_def d)
next
  case False
  obtain n0 n1 where d: "d = (n0, n1)" by (cases d)
  have k: "k < n1" using assms False by (simp add: axis_len_def d)
  have "(\<exists>j<n0. i = j * n1 + k) \<longleftrightarrow> (i < n0 * n1 \<and> i mod n1 = k)" for i
  proof
    assume "\<exists>j<n0. i = j * n1 + k"
    then obtain j where j: "j < n0" "i = j * n1 + k" by blast
    have "j * n1 + k < (j + 1) * n1" using k by simp
    also have "\<dots> \<le> n0 * n1" using j by (intro mult_le_mono1) simp
    finally show "i < n0 * n1 \<and> i mod n1 = k" using j k by simp
  next
    assume a: "i < n0 * n1 \<and> i mod n1 = k"
    have "i div n1 < n0" using a by (simp add: less_mult_imp_div_less)
    moreover have "i = (i div n1) * n1 + k" using a by (metis div_mult_mod_eq)
    ultimately show "\<exists>j<n0. i = j * n1 + k" by blast
  qed
  moreover have "set (slab_indexes d ax k) = {i. \<exists>j<n0. i = j * n1 + k}"
    unfolding slab_indexes_def set_map set_upt image_def using False by (auto simp: d)
  ultimately show ?thesis using False by (simp add: trial_of_def d)
qed

lemma slab_indexes_distinct: "k < axis_len d ax \<Longrightarrow> distinct (slab_indexes d ax k)"
  by (cases "snd d = 0") (auto simp: slab_indexes_def distinct_map inj_on_def axis_len_def)


lemma realign_loop_inv:
  assumes d: "dims (collections s0 c) = d"
      and n: "length (cells (collections s0 c)) = fst d * snd d"
      and al: "length al = axis_len d ax"
      and k: "k \<le> length al"
      and inv: "realign_inv s0 c (\<lambda>i. al ! trial_of d ax i) s
                  {i. i < fst d * snd d \<and> trial_of d ax i < k}"
  shows "\<exists>s'. realign_loop c ax k (drop k al) s = (s', None) \<and>
              realign_inv s0 c (\<lambda>i. al ! trial_of d ax i) s'
                {i. i < fst d * snd d \<and> trial_of d ax i < length al}"
  using k inv
proof (induction "length al - k" arbitrary: k s)
  case 0
  then have "k = length al" by simp
  then show ?case using "0.prems" by simp
next
  case (Suc m)
  then have klt: "k < length al" by simp
  let ?shift = "\<lambda>i. al ! trial_of d ax i"
  let ?D = "{i. i < fst d * snd d \<and> trial_of d ax i < k}"
  let ?js = "slab_indexes d ax k"
  let ?s1 = "fold (shift_cell c (al ! k)) ?js s"
  have dk: "dims (collections s c) = d"
    using Suc.prems(2) d by (simp add: realign_inv_def Let_def)
  have kax: "k < axis_len d ax" using klt al by simp
  have sj: "set ?js = {i. i < fst d * snd d \<and> trial_of d ax i = k}"
    by (rule slab_indexes_set[OF kax])
  have "realign_inv s0 c ?shift ?s1 (?D \<union> set ?js)"
  proof (rule realign_inv_fold[OF Suc.prems(2) slab_indexes_distinct[OF kax]])
    show "set ?js \<inter> ?D = {}" by (auto simp: sj)
    show "\<forall>j\<in>set ?js. j < length (cells (collections s0 c)) \<and> al ! trial_of d ax j = al ! k"
      by (simp add: sj n)
  qed
  moreover have "?D \<union> set ?js = {i. i < fst d * snd d \<and> trial_of d ax i < k + 1}"
    by (auto simp: sj)
  ultimately have inv1: "realign_inv s0 c ?shift ?s1 {i. i < fst d * snd d \<and> trial_of d ax i < k + 1}"
    by simp
  have "m = length al - (k + 1)" using Suc.hyps(2) by simp
  from Suc.hyps(1)[OF this _ inv1] klt
  obtain s' where s': "realign_loop c ax (k + 1) (drop (k + 1) al) ?s1 = (s', None)"
      "realign_inv s0 c ?shift s' {i. i < fst d * snd d \<and> trial_of d ax i < length al}"
    by auto
  have "drop k al = al ! k # drop (k + 1) al"
    using klt by (simp add: Cons_nth_drop_Suc)
  then have "realign_loop c ax k (drop k al) s = (s', None)"
    using s'(1) dk kax by (simp add: Let_def)
  then show ?case using s'(2) by blast
qed

lemma realign_inv_init:
  assumes "\<forall>a\<in>set (cells (collections s c)). a < next_free s"
  shows "realign_inv s c shift s {}"
  using assms by (simp add: realign_inv_def Let_def)

text \<open>
  C8, as stated: realignment leaves the caller's collection unchanged. For the
  collection holding the train \<open>[0.1, 0.3, 0.6]\<close> and the align time 0.3, the call
  returns the collection it was given, and the caller reads \<open>[-0.2, 0, 0.3]\<close> from it
  afterwards.
\<close>

theorem realign_spike_times_changes_input:
  "snd (realign_spike_times example_store 1 [3 / 10] 0) = Inr 1 \<and>
   read_collection example_store 1 = [[1 / 10, 3 / 10, 6 / 10]] \<and>
   read_collection (fst (realign_spike_times example_store 1 [3 / 10] 0)) 1
     = [[- (2 / 10), 0, 3 / 10]] \<and>
   read_collection (fst (realign_spike_times example_store 1 [3 / 10] 0)) 1
     \<noteq> read_collection example_store 1"
  by (simp add: realign_spike_times_def normalize_axis2_def example_store_def axis_len_def
      slab_indexes_def shift_cell_def read_collection_def Let_def)

text \<open>
  C8, amended. For a collection whose cells refer to allocated trains and an align-times
  vector with one entry per trial, \<^verbatim>\<open>realign_spike_times\<close> returns the collection it was
  given, whose cells now refer to new arrays: each is the original train minus the align
  time of its trial. Every array that existed before the call, and every other
  collection, is left as it was.
\<close>

theorem realign_spike_times_in_place:
  assumes ax: "normalize_axis2 trial_axis = Inr ax"
      and d: "dims (collections s c) = d"
      and n: "length (cells (collections s c)) = fst d * snd d"
      and wf: "\<forall>a\<in>set (cells (collections s c)). a < next_free s"
      and al: "length align_times = axis_len d ax"
  shows "\<exists>s'. realign_spike_times s c align_times trial_axis = (s', Inr c) \<and>
           length (read_collection s' c) = fst d * snd d \<and>
           (\<forall>i < fst d * snd d.
              read_collection s' c ! i =
                map (\<lambda>x. x - align_times ! trial_of d ax i) (read_collection s c ! i)) \<and>
           (\<forall>a < next_free s. arrays s' a = arrays s a) \<and>
           (\<forall>c'. c' \<noteq> c \<longrightarrow> collections s' c' = collections s c')"
proof -
  have "realign_inv s c (\<lambda>i. align_times ! trial_of d ax i) s
          {i. i < fst d * snd d \<and> trial_of d ax i < 0}"
    using realign_inv_init[OF wf] by simp
  from realign_loop_inv[OF d n al _ this]
  obtain s' where s': "realign_loop c ax 0 align_times s = (s', None)"
    "realign_inv s c (\<lambda>i. align_times ! trial_of d ax i) s'
        {i. i < fst d * snd d \<and> trial_of d ax i < length align_times}"
    by auto
  have tr: "trial_of d ax i < length align_times" if "i < fst d * snd d" for i
  proof (cases "ax = 0")
    case True
    then show ?thesis using that al
      by (simp add: trial_of_def axis_len_def less_mult_imp_div_less)
  next
    case False
    have "snd d \<noteq> 0" using that by (cases "snd d") auto
    then show ?thesis using False al by (simp add: trial_of_def axis_len_def)
  qed
  have r: "realign_spike_times s c align_times trial_axis = (s', Inr c)"
    by (simp add: realign_spike_times_def ax s'(1))
  have len: "length (cells (collections s' c)) = fst d * snd d"
    using s'(2) n by (simp add: realign_inv_def Let_def)
  have sh: "arrays s' (cells (collections s' c) ! i) =
              map (\<lambda>x. x - align_times ! trial_of d ax i) (arrays s (cells (collections s c) ! i))"
    if "i < fst d * snd d" for i
    using s'(2) n that tr[OF that] by (simp add: realign_inv_def Let_def)
  have old: "\<forall>a < next_free s. arrays s' a = arrays s a"
    using s'(2) by (simp add: realign_inv_def Let_def)
  have oth: "\<forall>c'. c' \<noteq> c \<longrightarrow> collections s' c' = collections s c'"
    using s'(2) by (simp add: realign_inv_def Let_def)
  show ?thesis
    using r len sh old oth n by (auto simp: read_collection_def)
qed

theorem realign_spike_times_in_place_witness:
  "normalize_axis2 0 = Inr 0 \<and>
   cells (collections example_store 1) = [0] \<and> 0 < next_free example_store \<and>
   (\<exists>s'. realign_spike_times example_store 1 [3 / 10] 0 = (s', Inr 1) \<and>
         read_collection s' 1 ! 0 = [- (2 / 10), 0, 3 / 10] \<and>
         arrays s' 0 = [1 / 10, 3 / 10, 6 / 10])"
proof -
  have a: "normalize_axis2 0 = Inr 0" by (simp add: normalize_axis2_def)
  have d: "dims (collections example_store 1) = (1, 1)" by (simp add: example_store_def)
  have n: "length (cells (collections example_store 1)) = fst (1 :: nat, 1 :: nat) * snd (1 :: nat, 1 :: nat)"
    by (simp add: example_store_def)
  have wf: "\<forall>a\<in>set (cells (collections example_store 1)). a < next_free example_store"
    by (simp add: example_store_def)
  have al: "length [3 / 10 :: real] = axis_len (1, 1) 0" by (simp add: axis_len_def)
  from realign_spike_times_in_place[OF a d n wf al]
  show ?thesis using a
    by (auto simp: trial_of_def read_collection_def example_store_def)
qed


subsection \<open>The round trip through a binary spike train\<close>





lemma pairs_windows: "pairs (concat (map (\<lambda>w. [fst w, snd w]) ws)) = ws"
  by (induction ws) simp_all


lemma regular_windows_length [simp]: "length (regular_windows a w n) = n"
  by (simp add: regular_windows_def)

lemma regular_windows_nth:
  "i < n \<Longrightarrow> regular_windows a w n ! i = (a + real i * w, a + real i * w + w)"
  by (simp add: regular_windows_def)























subsection \<open>Spike density of a train without spikes\<close>

lemma upt4: "[0..<4] = [0, 1, 2, 3 :: nat]"
  by (simp add: upt_rec)

lemma ex_time: "time_vector (Some (0, 3)) 1 None = Inr [0, 1, 2, 3]"
proof -
  have "nat \<lceil>(3 + 1 / 10 ^ 12 - 0 :: real) / (1 / 1)\<rceil> = 4"
    by (simp add: ceiling_eq_iff)
  then show ?thesis by (simp add: time_vector_def np_arange_def upt4)
qed

lemma ex_period: "sample_period [0, 1, 2, 3] = Inr (1, 1)"
  by (simp add: sample_period_def np_diff_def np_round_def)


lemma hist_counts_empty: "\<forall>c\<in>set (hist_counts [] es). c = 0"
  by (induction "[] :: real list" es rule: hist_counts.induct) simp_all

lemma count_spikes_empty:
  "count_spikes bs [] = Inr c \<Longrightarrow> \<forall>x\<in>set (store_float c). x = 0"
  using hist_counts_empty
  by (auto simp: count_spikes_def histogram_count_def np_histogram_def custom_bin_count_def
      split: if_splits)

lemma truthy_zero_row:
  assumes "\<forall>x\<in>set xs. x = 0" "\<forall>w\<in>set ws. w \<noteq> 0"
  shows "\<forall>b\<in>set (map truthy (map2 true_divide xs ws)). \<not> b"
proof -
  have "\<not> truthy (true_divide x w)" if "(x, w) \<in> set (zip xs ws)" for x w
  proof -
    have "x = 0" "w \<noteq> 0"
      using that assms by (auto dest: set_zip_leftD set_zip_rightD)
    then show ?thesis by (simp add: true_divide_def)
  qed
  then show ?thesis by auto
qed

lemma times_to_bool_empty_train:
  assumes tb: "times_to_bool (ObjArray trains) None w0 (Some (windows_array ws)) = Inr (sb, tp)"
      and wd: "\<forall>b\<in>set ws. snd b - fst b \<noteq> 0"
  shows "\<exists>rows. sb = BoolN rows \<and> length rows = length trains \<and>
           (\<forall>i < length trains. trains ! i = [] \<longrightarrow> (\<forall>x\<in>set (rows ! i). \<not> x))"
proof -
  have rb: "resolve_bins None (PyFloat (1 / 20)) None (Some (windows_array ws)) = Inr ws"
    by (simp add: resolve_bins_def windows_array_def bins_shape_ok_def pairs_windows)
  from tb obtain rates bs where
    br: "bin_rate (ObjArray trains) None (PyFloat (1 / 20)) None (Some (windows_array ws))
           False (- 1) None = Inr (rates, bs)" and
    sb: "sb = astype_bool rates"
    by (auto simp: times_to_bool_def times_to_bool_bins_def windows_array_def Let_def
        split: sum.splits if_splits)
  from br obtain cs where ca: "count_all ws trains = Inr cs"
      and rates: "rates = finish_rates False False ws cs"
    by (auto simp: bin_rate_def to_trains_def rb Let_def split: sum.splits if_splits)
  define rows where
    "rows = map (\<lambda>c. map truthy (map2 true_divide (store_float c) (bin_widths ws))) cs"
  have sbr: "sb = BoolN rows"
    by (simp add: sb rates finish_rates_def rows_def Let_def comp_def)
  have len: "length rows = length trains"
    using count_all_length[OF ca] by (simp add: rows_def)
  have wz: "\<forall>w\<in>set (bin_widths ws). w \<noteq> 0"
    using wd by (auto simp: bin_widths_def)
  have "\<forall>x\<in>set (rows ! i). \<not> x" if i: "i < length trains" "trains ! i = []" for i
  proof -
    have "count_spikes ws [] = Inr (cs ! i)"
      using count_all_nth[OF ca i(1)] i(2) by simp
    then have "\<forall>x\<in>set (store_float (cs ! i)). x = 0" by (rule count_spikes_empty)
    then have "\<forall>b\<in>set (map truthy (map2 true_divide (store_float (cs ! i)) (bin_widths ws))). \<not> b"
      using wz by (rule truthy_zero_row)
    moreover have "rows ! i = map truthy (map2 true_divide (store_float (cs ! i)) (bin_widths ws))"
      using i(1) count_all_length[OF ca] by (simp add: rows_def)
    ultimately show ?thesis by simp
  qed
  then show ?thesis using sbr len by blast
qed

lemma set_remove_buffer: "set (remove_buffer nb xs) \<subseteq> set xs"
  by (auto simp: remove_buffer_def Let_def dest: in_set_takeD in_set_dropD)

lemma no_spikes_remove_buffer:
  "\<forall>x\<in>set row. x = 0 \<Longrightarrow> no_spikes (remove_buffer nb row)"
  using set_remove_buffer[of nb row] by (auto simp: no_spikes_def list_ex_iff)

lemma no_spikes_zero: "\<forall>x\<in>set row. x = 0 \<Longrightarrow> no_spikes row"
  by (auto simp: no_spikes_def list_ex_iff)

lemma zero_fix_row:
  assumes "zero_fix data rates = Inr out" "i < length data" "no_spikes (data ! i)"
  shows "length out = length data \<and> (\<forall>x\<in>set (out ! i). x = Finite 0)"
  using assms by (auto simp: zero_fix_def split: if_splits)

lemma finish_density_zero:
  assumes fd: "finish_density data single rates t buffer n_buffer downsmp = Inr (out, t')"
      and i: "i < length data" "\<forall>x\<in>set (data ! i). x = 0"
  shows "\<exists>rows. length rows = length data \<and> (\<forall>x\<in>set (rows ! i). x = Finite 0) \<and>
           out = (if single then Density1 (hd rows) else DensityN rows)"
proof -
  define data1 where "data1 = (if buffer \<noteq> 0 then map (remove_buffer n_buffer) data else data)"
  have l1: "length data1 = length data" by (simp add: data1_def)
  have ns: "no_spikes (data1 ! i)"
    using i by (simp add: data1_def no_spikes_remove_buffer no_spikes_zero)
  from fd obtain rates2 rows where zf: "zero_fix data1 rates2 = Inr rows"
      and out: "out = (if single then Density1 (hd rows) else DensityN rows)"
    by (auto simp: finish_density_def Let_def data1_def split: sum.splits if_splits)
  from zero_fix_row[OF zf _ ns] i(1) l1
  have "length rows = length data \<and> (\<forall>x\<in>set (rows ! i). x = Finite 0)" by simp
  then show ?thesis using out by blast
qed


lemma sample_period_nonzero: "sample_period t = Inr (dt, sr) \<Longrightarrow> dt \<noteq> 0"
  by (auto simp: sample_period_def Let_def split: if_splits)

lemma binarise_empty_train:
  assumes b: "binarise (ObjArray trains) t dt = Inr (rows, single, t2)" and dt: "dt \<noteq> 0"
  shows "\<not> single \<and> length rows = length trains \<and>
           (\<forall>i < length trains. trains ! i = [] \<longrightarrow> (\<forall>x\<in>set (rows ! i). x = 0))"
proof -
  let ?ws = "map (\<lambda>x. (x - dt / 2, x + dt / 2)) t"
  from b obtain sb tp where
    tb: "times_to_bool (ObjArray trains) None (PyFloat (1 / 1000)) (Some (windows_array ?ws)) = Inr (sb, tp)"
    and r: "rows = fst (bool_rows sb)" "single = snd (bool_rows sb)"
    by (auto simp: binarise_def split: sum.splits)
  have "\<forall>b\<in>set ?ws. snd b - fst b \<noteq> 0" using dt by auto
  from times_to_bool_empty_train[OF tb this]
  obtain rowsb where rb: "sb = BoolN rowsb" "length rowsb = length trains"
    "\<forall>i < length trains. trains ! i = [] \<longrightarrow> (\<forall>x\<in>set (rowsb ! i). \<not> x)"
    by blast
  have "\<forall>x\<in>set (rows ! i). x = 0" if "i < length trains" "trains ! i = []" for i
    using rb that by (auto simp: r)
  then show ?thesis using rb by (simp add: r)
qed

lemma np_take_set:
  assumes "np_take xs idxs = Inr ys"
  shows "set ys \<subseteq> set xs"
proof -
  let ?n = "int (length xs)"
  from assms have ok: "\<forall>i\<in>set idxs. - ?n \<le> i \<and> i < ?n"
    and ys: "ys = map (\<lambda>i. xs ! nat (if i < 0 then i + ?n else i)) idxs"
    by (auto simp: np_take_def Let_def list_all_iff split: if_splits)
  have "xs ! nat (if i < 0 then i + ?n else i) \<in> set xs" if "i \<in> set idxs" for i
  proof -
    have "nat (if i < 0 then i + ?n else i) < length xs"
      using ok that by (auto split: if_splits)
    then show ?thesis by (rule nth_mem)
  qed
  then show ?thesis by (auto simp: ys)
qed

lemma reflect_pad_set: "reflect_pad xs axis nb = Inr ys \<Longrightarrow> set ys \<subseteq> set xs"
  by (auto simp: reflect_pad_def split: if_splits dest: np_take_set)

text \<open>
  C7, as stated: for every spike train without spikes \<^verbatim>\<open>density\<close> returns rates that
  are zero everywhere. An empty array of timestamps, the single train without spikes,
  is classified as binary data (it holds no value other than 0 and 1), and without a time
  vector the call fails on \<^verbatim>\<open>assert t is not None\<close>.
\<close>

theorem density_rejects_empty_timestamp_array:
  "density noisy_scipy (NumArray []) (KernelName ''gaussian'') (1 / 20) (Some (0, 1)) 1000 None 1 (- 1) None
     = Inl (AssertionError NeedTimeVector)"
  by (simp add: density_def)

text \<open>
  C7, amended. Whatever the kernel, the buffer, the downsampling factor and the result
  of the convolution: when \<^verbatim>\<open>density\<close> returns for an object array of timestamp
  trains, the rates of every train without spikes are exactly zero at every output
  sample; and so are the rates it returns for a boolean train that is false everywhere.
\<close>

theorem density_zero_for_spike_free_trains:
  "(density sp (ObjArray trains) kern width lims smp_rate buffer downsmp axis t = Inr (out, t') \<longrightarrow>
      (\<exists>rates. out = DensityN rates \<and> length rates = length trains \<and>
         (\<forall>i < length trains. trains ! i = [] \<longrightarrow> (\<forall>x\<in>set (rates ! i). x = Finite 0)))) \<and>
   (density sp (BoolArray bs) kern width lims smp_rate buffer downsmp axis t = Inr (out, t') \<and>
      (\<forall>b\<in>set bs. \<not> b) \<longrightarrow>
      (\<exists>rates. out = Density1 rates \<and> (\<forall>x\<in>set rates. x = Finite 0)))"
proof (intro conjI impI)
  assume d: "density sp (ObjArray trains) kern width lims smp_rate buffer downsmp axis t = Inr (out, t')"
  define buffer' where "buffer' = (case buffer of None \<Rightarrow> default_buffer kern width | Some b \<Rightarrow> b)"
  from d obtain t0 dt sr t1 k rows single t2 rates where
    sp: "sample_period t0 = Inr (dt, sr)" and
    bn: "binarise (ObjArray trains) t1 dt = Inr (rows, single, t2)" and
    fd: "finish_density rows single rates t2 buffer' (np_round (buffer' * of_int sr)) downsmp = Inr (out, t')"
    by (auto simp: density_def Let_def buffer'_def split: sum.splits if_splits prod.splits)
  have dt: "dt \<noteq> 0" using sp by (rule sample_period_nonzero)
  from binarise_empty_train[OF bn dt]
  have ns: "\<not> single" and len: "length rows = length trains"
    and z: "\<forall>i < length trains. trains ! i = [] \<longrightarrow> (\<forall>x\<in>set (rows ! i). x = 0)"
    by simp_all
  show "\<exists>rates. out = DensityN rates \<and> length rates = length trains \<and>
         (\<forall>i < length trains. trains ! i = [] \<longrightarrow> (\<forall>x\<in>set (rates ! i). x = Finite 0))"
  proof (cases "\<exists>i < length trains. trains ! i = []")
    case True
    then obtain i0 where i0: "i0 < length trains" "trains ! i0 = []" by blast
    from finish_density_zero[OF fd, of i0] i0 z len ns
    obtain r0 where r0: "length r0 = length rows" "out = DensityN r0" by auto
    have "\<forall>x\<in>set (r0 ! i). x = Finite 0" if "i < length trains" "trains ! i = []" for i
    proof -
      from finish_density_zero[OF fd, of i] that z len ns
      obtain r where "\<forall>x\<in>set (r ! i). x = Finite 0" "out = DensityN r" by auto
      then show ?thesis using r0 by simp
    qed
    then show ?thesis using r0 len by auto
  next
    case False
    from fd ns obtain r0 where "out = DensityN r0" "length r0 = length rows"
      by (auto simp: finish_density_def Let_def zero_fix_def split: sum.splits if_splits)
    then show ?thesis using False len by auto
  qed
next
  assume a: "density sp (BoolArray bs) kern width lims smp_rate buffer downsmp axis t = Inr (out, t') \<and>
      (\<forall>b\<in>set bs. \<not> b)"
  define buffer' where "buffer' = (case buffer of None \<Rightarrow> default_buffer kern width | Some b \<Rightarrow> b)"
  from a obtain sr data1 axis' t1 dt rows single t2 rates where
    pd: "(if buffer' \<noteq> 0 then pad_data (BoolArray bs) axis' (np_round (buffer' * of_int sr))
          else Inr (BoolArray bs)) = Inr data1" and
    tl: "time_axis_last data1 axis' t1 dt = Inr (rows, single, t2)" and
    fd: "finish_density rows single rates t2 buffer' (np_round (buffer' * of_int sr)) downsmp = Inr (out, t')"
    by (auto simp: density_def Let_def buffer'_def split: sum.splits if_splits prod.splits)
  from pd obtain bs1 where d1: "data1 = BoolArray bs1" "set bs1 \<subseteq> set bs"
    by (cases "reflect_pad bs axis' (np_round (buffer' * of_int sr))")
       (auto split: if_splits dest: reflect_pad_set)
  from tl d1 have rs: "rows = [map of_bool bs1]" "single"
    by (auto simp: vector_time_last_def split: if_splits)
  have "\<forall>x\<in>set (rows ! 0). x = 0" using d1 a by (auto simp: rs)
  from finish_density_zero[OF fd _ this] rs
  obtain r where "length r = 1" "\<forall>x\<in>set (r ! 0). x = Finite 0" "out = Density1 (hd r)"
    by auto
  then show "\<exists>rates. out = Density1 rates \<and> (\<forall>x\<in>set rates. x = Finite 0)"
    by (cases r) auto
qed


lemma ex_extend: "extend_time [0, 1, 2, 3] 1 1 = Inr [- 1, 0, 1, 2, 3, 4]"
proof -
  have "\<lceil>(0 - 1 * 1 - 1 / 10 ^ 12 - (0 - 1) :: real) / (- 1)\<rceil> = 1"
    by (simp add: ceiling_eq_iff)
  then have 1: "nat \<lceil>(0 - 1 * 1 - 1 / 10 ^ 12 - (0 - 1) :: real) / (- 1)\<rceil> = 1"
    by (simp only: nat_1)
  have "\<lceil>(3 + 1 * 1 + 1 / 10 ^ 12 - (3 + 1) :: real) / 1\<rceil> = 1"
    by (simp add: ceiling_eq_iff)
  then have 2: "nat \<lceil>(3 + 1 * 1 + 1 / 10 ^ 12 - (3 + 1) :: real) / 1\<rceil> = 1"
    by (simp only: nat_1)
  have a: "np_arange (0 - 1) (0 - 1 * 1 - 1 / 10 ^ 12) (- 1) = Inr [- 1]"
    unfolding np_arange_def using 1 by simp
  have b: "np_arange (3 + 1) (3 + 1 * 1 + 1 / 10 ^ 12) 1 = Inr [4]"
    unfolding np_arange_def using 2 by simp
  show ?thesis
    unfolding extend_time_def using a b by simp
qed

lemma ex_kernel: "str_to_kernel noisy_scipy (KernelName ''hann'') (1 * 1) = Inr [1, 1]"
  by (simp add: str_to_kernel_def py_lower_def lower_char_def noisy_scipy_def np_round_def
      numeral_2_eq_2)

lemma ex_bins:
  "times_to_bool (ObjArray [[], [6 / 5]]) None (PyFloat (1 / 1000))
      (Some (windows_array (map (\<lambda>x. (x - 1 / 2, x + 1 / 2)) [- 1, 0, 1, 2, 3, 4])))
    = Inr (BoolN [[False, False, False, False, False, False],
                  [False, False, True, False, False, False]], [- 1, 0, 1, 2, 3, 4])"
  by (simp add: times_to_bool_def times_to_bool_bins_def windows_array_def bin_rate_def
      to_trains_def resolve_bins_def bins_shape_ok_def count_spikes_def std_bins_def
      np_allclose_def isclose_np_def bin_widths_def hist_edges_def histogram_count_def
      np_histogram_def finish_rates_def true_divide_def)

lemma ex_density:
  "density noisy_scipy (ObjArray [[], [6 / 5]]) (KernelName ''hann'') 1 (Some (0, 3)) 1 (Some 1) 1 (- 1) None
     = Inr (DensityN [[Finite 0, Finite 0, Finite 0, Finite 0],
                      [Finite 1, Finite 1, Finite 1, Finite 1]], [0, 1, 2, 3])"
proof -
  have nb: "np_round (1 * of_int 1) = 1" by (simp add: np_round_def)
  have k: "str_to_kernel noisy_scipy (KernelName ''hann'') (of_int 1) = Inr [1, 1]"
    using ex_kernel by simp
  have b: "binarise (ObjArray [[], [6 / 5]]) [- 1, 0, 1, 2, 3, 4] 1
      = Inr ([[0, 0, 0, 0, 0, 0], [0, 0, 1, 0, 0, 0]], False, [- 1, 0, 1, 2, 3, 4])"
    using ex_bins by (simp add: binarise_def)
  have f: "finish_density [[0, 0, 0, 0, 0, 0], [0, 0, 1, 0, 0, 0]] False
             [[Finite 1, Finite 1, Finite 1, Finite 1, Finite 1, Finite 1],
              [Finite 1, Finite 1, Finite 1, Finite 1, Finite 1, Finite 1]]
             [- 1, 0, 1, 2, 3, 4] 1 1 1
         = Inr (DensityN [[Finite 0, Finite 0, Finite 0, Finite 0],
                      [Finite 1, Finite 1, Finite 1, Finite 1]], [0, 1, 2, 3])"
    by (simp add: finish_density_def remove_buffer_def slice_bound_def zero_fix_def no_spikes_def)
  have c: "convolve_same noisy_scipy [[0, 0, 0, 0, 0, 0], [0, 0, 1, 0, 0, 0]] [1, 1] (of_int 1)
      = Inr [[Finite 1, Finite 1, Finite 1, Finite 1, Finite 1, Finite 1],
              [Finite 1, Finite 1, Finite 1, Finite 1, Finite 1, Finite 1]]"
    by (simp add: noisy_scipy_def)
  show ?thesis
    unfolding density_def
    by (simp add: ex_time ex_period nb ex_extend k b c f del: of_int_1)
qed


lemma ex_bool_density:
  "density noisy_scipy (BoolArray [False, False, False, False]) (KernelName ''hann'') 1 None 1 (Some 1) 1 (- 1)
       (Some [0, 1, 2, 3])
     = Inr (Density1 [Finite 0, Finite 0, Finite 0, Finite 0], [0, 1, 2, 3])"
proof -
  have nb: "np_round (1 * of_int 1) = 1" by (simp add: np_round_def)
  have k: "str_to_kernel noisy_scipy (KernelName ''hann'') (of_int 1) = Inr [1, 1]"
    using ex_kernel by simp
  have p: "reflect_pad [False, False, False, False] 0 1
             = Inr [False, False, False, False, False, False]"
    by (simp add: reflect_pad_def reflect_indexes_def np_take_def upt4)
  have c: "convolve_same noisy_scipy [[0, 0, 0, 0, 0, 0]] [1, 1] (of_int 1)
      = Inr [[Finite 1, Finite 1, Finite 1, Finite 1, Finite 1, Finite 1]]"
    by (simp add: noisy_scipy_def)
  have f: "finish_density [[0, 0, 0, 0, 0, 0]] True
             [[Finite 1, Finite 1, Finite 1, Finite 1, Finite 1, Finite 1]]
             [- 1, 0, 1, 2, 3, 4] 1 1 1
         = Inr (Density1 [Finite 0, Finite 0, Finite 0, Finite 0], [0, 1, 2, 3])"
    by (simp add: finish_density_def remove_buffer_def slice_bound_def zero_fix_def no_spikes_def)
  show ?thesis
    unfolding density_def
    by (simp add: time_vector_def ex_period nb ex_extend k p c f vector_time_last_def del: of_int_1)
qed

text \<open>
  The theorem at work: a convolution that leaves the residue 1 at every sample; the
  rates of the empty train and of the all-false train are zero, those of the train with
  a spike are left as the convolution gave them.
\<close>

theorem density_zero_for_spike_free_trains_witness:
  "density noisy_scipy (ObjArray [[], [6 / 5]]) (KernelName ''hann'') 1 (Some (0, 3)) 1 (Some 1) 1 (- 1) None
     = Inr (DensityN [[Finite 0, Finite 0, Finite 0, Finite 0],
                      [Finite 1, Finite 1, Finite 1, Finite 1]], [0, 1, 2, 3]) \<and>
   density noisy_scipy (BoolArray [False, False, False, False]) (KernelName ''hann'') 1 None 1 (Some 1) 1 (- 1)
       (Some [0, 1, 2, 3])
     = Inr (Density1 [Finite 0, Finite 0, Finite 0, Finite 0], [0, 1, 2, 3]) \<and>
   [[], [6 / 5 :: real]] ! 0 = [] \<and>
   [[Finite 0, Finite 0, Finite 0, Finite 0], [Finite 1, Finite 1, Finite 1, Finite 1]] ! 0
     = [Finite 0, Finite 0, Finite 0, Finite 0]"
proof -
  note a = density_zero_for_spike_free_trains[of noisy_scipy "[[], [6 / 5]]" "KernelName ''hann''" 1 "Some (0, 3)" 1 "Some 1" 1 "- 1" None
              "DensityN [[Finite 0, Finite 0, Finite 0, Finite 0],
                      [Finite 1, Finite 1, Finite 1, Finite 1]]" "[0, 1, 2, 3]" "[]"]
  note b = density_zero_for_spike_free_trains[of noisy_scipy "[]" "KernelName ''hann''" 1 None 1 "Some 1" 1 "- 1" "Some [0, 1, 2, 3]"
              "Density1 [Finite 0, Finite 0, Finite 0, Finite 0]" "[0, 1, 2, 3]"
              "[False, False, False, False]"]
  show ?thesis
    using a b ex_density ex_bool_density by simp
qed

subsection \<open>The counting paths away from the final edge\<close>

text \<open>
  On regular windows of positive width the histogram path and the explicit-inclusion
  path store the same \<^verbatim>\<open>uint16\<close> counts for every train that has no spike exactly at
  the end of the final bin: that edge is the only place where they differ.
\<close>

lemma counting_paths_agree_off_final_edge:
  assumes w: "0 < w" and n: "0 < n"
      and edge: "\<forall>t\<in>set train. t \<noteq> a + real n * w"
  shows "custom_bin_count train (regular_windows a w n)
           = map of_nat (hist_counts train (hist_edges (regular_windows a w n)))"
proof (rule nth_equalityI)
  let ?ws = "regular_windows a w n"
  let ?es = "hist_edges ?ws"
  have les: "length ?es = n + 1" by (simp add: hist_edges_def)
  show "length (custom_bin_count train ?ws) = length (map of_nat (hist_counts train ?es) :: 16 word list)"
    by (simp add: custom_bin_count_def hist_counts_length les)
  fix j assume "j < length (custom_bin_count train ?ws)"
  then have j: "j < n" by (simp add: custom_bin_count_def)
  have ej: "?es ! j = a + real j * w"
    using j by (simp add: hist_edges_nth(1) regular_windows_nth)
  have ej1: "?es ! (j + 1) = a + real j * w + w"
  proof (cases "j + 1 = n")
    case True
    then have "?es ! (j + 1) = snd (last ?ws)"
      using hist_edges_nth(2)[of ?ws] n by (simp add: regular_windows_def)
    also have "last ?ws = ?ws ! j"
      using True n by (simp add: last_conv_nth regular_windows_def)
    finally show ?thesis using j by (simp add: regular_windows_nth)
  next
    case False
    then have "j + 1 < n" using j by simp
    then show ?thesis by (simp add: hist_edges_nth(1) regular_windows_nth algebra_simps)
  qed
  have same: "filter (\<lambda>x. ?es ! j \<le> x \<and> x \<le> ?es ! (j + 1)) train
                = filter (\<lambda>x. ?es ! j \<le> x \<and> x < ?es ! (j + 1)) train" if "j + 1 = n"
  proof (rule filter_cong[OF refl])
    fix x assume "x \<in> set train"
    then have "x \<noteq> a + real n * w" using edge by simp
    moreover have "a + real j * w + w = a + real n * w"
      using that by (simp add: algebra_simps flip: that)
    ultimately show "(?es ! j \<le> x \<and> x \<le> ?es ! (j + 1)) = (?es ! j \<le> x \<and> x < ?es ! (j + 1))"
      unfolding ej1 by auto
  qed
  have "hist_counts train ?es ! j = length (filter (\<lambda>x. ?es ! j \<le> x \<and> x < ?es ! (j + 1)) train)"
    using hist_counts_nth[of j ?es train] j same by (auto simp: les)
  also have "\<dots> = length (filter (in_bin (?ws ! j)) train)"
  proof -
    have "in_bin (?ws ! j) = (\<lambda>x. ?es ! j \<le> x \<and> x < ?es ! (j + 1))"
      using j unfolding ej ej1 by (simp add: in_bin_def regular_windows_nth fun_eq_iff)
    then show ?thesis by simp
  qed
  finally show "custom_bin_count train ?ws ! j = (map of_nat (hist_counts train ?es) :: 16 word list) ! j"
    using j by (simp add: custom_bin_count_def hist_counts_length les)
qed


end
